theory Spec2Isabelle
  imports Main "HOL-Library.Multiset" "HOL-Library.Log_Nat" "HOL-Library.Code_Target_Nat"
begin

section \<open>JavaScript numbers\<close>

text \<open>
  Prices, subtotals and totals are JavaScript \<^verbatim>\<open>number\<close>s: IEEE-754 binary64 values.
  A finite double is kept as the rational it denotes (so \<^verbatim>\<open>===\<close> on finite values is
  equality, and the two zeros are identified); the three special values are separate
  constructors. Every arithmetic result is rounded to the nearest double, ties to even.
\<close>

datatype number = Fin rat | PosInf | NegInf | NaN

text \<open>\<open>binade x\<close> is \<open>\<lfloor>log\<^sub>2 x\<rfloor>\<close> for a positive rational \<open>x\<close>.\<close>

definition binade :: "rat \<Rightarrow> int" where
  "binade x = (if 1 \<le> x then bitlen \<lfloor>x\<rfloor> - 1 else - bitlen (\<lceil>1 / x\<rceil> - 1))"

text \<open>
  The doubles of the binade of \<open>x\<close> are the multiples of \<open>2 ^ (binade x - 52)\<close>; below the
  smallest normal number the spacing stays at \<open>2 ^ (-1074)\<close>.
\<close>

definition ulp :: "rat \<Rightarrow> rat" where
  "ulp x = 2 powi (max (binade \<bar>x\<bar> - 52) (- 1074))"

definition round_half_even :: "rat \<Rightarrow> int" where
  "round_half_even x =
     (let f = \<lfloor>x\<rfloor>; d = x - of_int f
      in if d < 1 / 2 then f
         else if 1 / 2 < d then f + 1
         else if even f then f else f + 1)"

definition round_double :: "rat \<Rightarrow> number" where
  "round_double x =
     (if x = 0 then Fin 0
      else let u = ulp x; y = of_int (round_half_even (x / u)) * u
           in if 2 ^ 1024 \<le> \<bar>y\<bar> then (if 0 < x then PosInf else NegInf) else Fin y)"

definition js_add :: "number \<Rightarrow> number \<Rightarrow> number" where
  "js_add x y =
     (case (x, y) of
        (Fin a, Fin b) \<Rightarrow> round_double (a + b)
      | (NaN, _) \<Rightarrow> NaN
      | (_, NaN) \<Rightarrow> NaN
      | (PosInf, NegInf) \<Rightarrow> NaN
      | (NegInf, PosInf) \<Rightarrow> NaN
      | (PosInf, _) \<Rightarrow> PosInf
      | (_, PosInf) \<Rightarrow> PosInf
      | (NegInf, _) \<Rightarrow> NegInf
      | (_, NegInf) \<Rightarrow> NegInf)"

definition js_sign :: "number \<Rightarrow> int" where
  "js_sign x =
     (case x of
        Fin a \<Rightarrow> (if a = 0 then 0 else if 0 < a then 1 else - 1)
      | PosInf \<Rightarrow> 1
      | NegInf \<Rightarrow> - 1
      | NaN \<Rightarrow> 0)"

definition js_mul :: "number \<Rightarrow> number \<Rightarrow> number" where
  "js_mul x y =
     (case (x, y) of
        (Fin a, Fin b) \<Rightarrow> round_double (a * b)
      | (NaN, _) \<Rightarrow> NaN
      | (_, NaN) \<Rightarrow> NaN
      | _ \<Rightarrow> (if js_sign x * js_sign y = 0 then NaN
              else if 0 < js_sign x * js_sign y then PosInf else NegInf))"

text \<open>\<^verbatim>\<open>x || 0\<close>: the falsy numbers are zero and \<^verbatim>\<open>NaN\<close>.\<close>

definition or_zero :: "number \<Rightarrow> number" where
  "or_zero x = (if x = Fin 0 \<or> x = NaN then Fin 0 else x)"

text \<open>A quantity is a whole number; as an operand of \<^verbatim>\<open>*\<close> it is the double nearest to it.\<close>

definition number_of_int :: "int \<Rightarrow> number" where
  "number_of_int i = round_double (of_int i)"

text \<open>The double a decimal literal or a decimal column value \<open>n / 10 ^ k\<close> is read as.\<close>

definition decimal :: "int \<Rightarrow> nat \<Rightarrow> number" where
  "decimal n k = round_double (of_int n / 10 ^ k)"

section \<open>The order builder (CreateOrder.tsx)\<close>

text \<open>
  The interfaces \<^verbatim>\<open>Product\<close> and \<^verbatim>\<open>OrderItem\<close>. Field names carry the
  prefix of their record (\<open>p_\<close>, \<open>i_\<close>) because several interfaces share the field \<^verbatim>\<open>id\<close>.
  A quantity is an integer: it starts at 1 and changes by steps of 1, which doubles
  represent exactly below \<open>2 ^ 53\<close>.
\<close>

record product =
  p_id :: string
  p_name :: string
  p_price :: number
  p_image_url :: "string option"
  p_description :: "string option"

record order_item =
  i_product :: product
  i_quantity :: int

text \<open>
  The cart is the state variable \<^verbatim>\<open>orderItems\<close>; each handler reads the current list and
  its \<^verbatim>\<open>setOrderItems\<close> call gives the next one.
\<close>

definition addToOrder :: "order_item list \<Rightarrow> product \<Rightarrow> order_item list" where
  "addToOrder orderItems p =
     (case find (\<lambda>item. p_id (i_product item) = p_id p) orderItems of
        Some existingItem \<Rightarrow>
          map (\<lambda>item. if p_id (i_product item) = p_id p
                       then item\<lparr>i_quantity := i_quantity item + 1\<rparr> else item) orderItems
      | None \<Rightarrow> orderItems @ [\<lparr>i_product = p, i_quantity = 1\<rparr>])"

definition updateQuantity :: "order_item list \<Rightarrow> string \<Rightarrow> int \<Rightarrow> order_item list" where
  "updateQuantity orderItems productId newQuantity =
     (if newQuantity = 0
      then filter (\<lambda>item. p_id (i_product item) \<noteq> productId) orderItems
      else map (\<lambda>item. if p_id (i_product item) = productId
                        then item\<lparr>i_quantity := newQuantity\<rparr> else item) orderItems)"

definition getTotalAmount :: "order_item list \<Rightarrow> number" where
  "getTotalAmount orderItems =
     foldl (\<lambda>total item. js_add total (js_mul (p_price (i_product item)) (number_of_int (i_quantity item))))
       (Fin 0) orderItems"

text \<open>
  The controls of the page that change the cart: a click on a product card, and the minus
  and plus buttons rendered beside each cart entry (named here by the entry's position),
  which ask for the entry's quantity less one and plus one.
\<close>

datatype cart_event = ClickProduct product | ClickMinus nat | ClickPlus nat

definition cart_step :: "order_item list \<Rightarrow> cart_event \<Rightarrow> order_item list" where
  "cart_step orderItems ev =
     (case ev of
        ClickProduct p \<Rightarrow> addToOrder orderItems p
      | ClickMinus n \<Rightarrow>
          (if n < length orderItems
           then updateQuantity orderItems (p_id (i_product (orderItems ! n))) (i_quantity (orderItems ! n) - 1)
           else orderItems)
      | ClickPlus n \<Rightarrow>
          (if n < length orderItems
           then updateQuantity orderItems (p_id (i_product (orderItems ! n))) (i_quantity (orderItems ! n) + 1)
           else orderItems))"

text \<open>
  Two notions used to state properties of a cart: the product identifier of an entry, and
  the quantity stored for a product identifier, 0 when the cart has no entry for it.
\<close>

definition item_id :: "order_item \<Rightarrow> string" where
  "item_id item = p_id (i_product item)"

definition quantity_of :: "order_item list \<Rightarrow> string \<Rightarrow> int" where
  "quantity_of c k = (case find (\<lambda>item. item_id item = k) c of Some item \<Rightarrow> i_quantity item | None \<Rightarrow> 0)"

text \<open>The carts in which every product has one entry and every quantity is at least 1.\<close>

definition cart_ok :: "order_item list \<Rightarrow> bool" where
  "cart_ok c = (distinct (map item_id c) \<and> list_all (\<lambda>item. 1 \<le> i_quantity item) c)"




section \<open>Order submission (CreateOrder.tsx, handleSubmitOrder)\<close>

datatype order_type = dine_in | delivery

text \<open>The state of the form when the submit button is pressed.\<close>

record form =
  orderItems :: "order_item list"
  orderType :: order_type
  tableNumber :: string
  customerName :: string
  customerAddress :: string
  customerLocation :: string
  profile_id :: "string option"

text \<open>
  \<^verbatim>\<open>parseInt(s)\<close> with no radix: leading white space is skipped, then an optional sign, then
  \<^verbatim>\<open>0x\<close> or \<^verbatim>\<open>0X\<close> selects radix 16 (radix 10 otherwise), then the longest run of digits
  of that radix is read; with no digit the result is \<^verbatim>\<open>NaN\<close>. Characters are bytes here, so
  the white space recognised is the ASCII part of JavaScript's.
\<close>

definition is_white_space :: "char \<Rightarrow> bool" where
  "is_white_space c = (of_char c \<in> {32, 9, 10, 11, 12, 13 :: nat})"

definition digit_value :: "nat \<Rightarrow> char \<Rightarrow> nat option" where
  "digit_value radix c =
     (let n = of_char c :: nat;
          v = (if 48 \<le> n \<and> n \<le> 57 then Some (n - 48)
               else if 97 \<le> n \<and> n \<le> 122 then Some (n - 87)
               else if 65 \<le> n \<and> n \<le> 90 then Some (n - 55)
               else None)
      in case v of Some d \<Rightarrow> (if d < radix then Some d else None) | None \<Rightarrow> None)"

definition parseInt :: "string \<Rightarrow> number" where
  "parseInt s =
     (let t = dropWhile is_white_space s;
          negative = (t \<noteq> [] \<and> hd t = CHR ''-'');
          t1 = (if t \<noteq> [] \<and> (hd t = CHR ''-'' \<or> hd t = CHR ''+'') then tl t else t);
          hex = (2 \<le> length t1 \<and> hd t1 = CHR ''0'' \<and> (hd (tl t1) = CHR ''x'' \<or> hd (tl t1) = CHR ''X''));
          radix = (if hex then 16 else 10);
          t2 = (if hex then tl (tl t1) else t1);
          ds = takeWhile (\<lambda>c. digit_value radix c \<noteq> None) t2;
          v = foldl (\<lambda>a c. a * radix + the (digit_value radix c)) 0 ds
      in if ds = [] then NaN
         else number_of_int (if negative then - int v else int v))"

text \<open>
  The tables of the store. A row of \<^verbatim>\<open>orders\<close> or \<^verbatim>\<open>order_items\<close> is the object the client
  composes and hands to \<^verbatim>\<open>insert\<close>, together with the columns the store fills in by default:
  the identifier of an order and its creation time. A column keeps of a value what its
  type holds, and a row of a table is written as a client reads it back.
  A time stamp is a number of microseconds since the epoch, a
  calendar date (a \<^verbatim>\<open>DATE\<close> column, or a string \<^verbatim>\<open>YYYY-MM-DD\<close>) the number of its day.
\<close>

record report_item =
  ri_product :: string
  ri_quantity :: int
  ri_price :: number

record report_order =
  ro_id :: string
  ro_type :: order_type
  ro_amount :: number
  ro_items :: "report_item list"

record report_data =
  rd_date :: int
  rd_totalOrders :: nat
  rd_totalRevenue :: number
  rd_orders :: "report_order list"

record order_row =
  o_id :: string
  o_employee_id :: "string option"
  o_order_type :: order_type
  o_table_number :: "number option"
  o_customer_name :: "string option"
  o_customer_address :: "string option"
  o_customer_location :: "string option"
  o_total_amount :: number
  o_status :: string
  o_created_at :: int

record order_item_row =
  oi_order_id :: string
  oi_product_id :: string
  oi_quantity :: int
  oi_unit_price :: number
  oi_subtotal :: number

record product_row = product +
  is_active :: bool

record sales_report_row =
  sr_id :: string
  report_date :: int
  total_orders :: nat
  total_revenue :: number
  report_data :: report_data

record store =
  orders_table :: "order_row list"
  order_items_table :: "order_item_row list"
  products_table :: "product_row list"
  sales_reports_table :: "sales_report_row list"
  sales_bucket :: "(int \<times> report_data) list"

text \<open>
  What the store answers to the two inserts of one submission: the identifier and the
  creation time it gives the order, and whether it rejects the first or the second insert
  (the \<^verbatim>\<open>error\<close> field of each response).
\<close>

record store_reply =
  new_order_id :: string
  new_created_at :: int
  order_insert_error :: bool
  items_insert_error :: bool

text \<open>
  The outcomes of a submission. Each failure is one \<^verbatim>\<open>toast\<close> of the source, told apart by its
  description; the names are the specification's.
\<close>

datatype submit_error = EmptyOrder | MissingTableNumber | MissingDeliveryInfo | PersistenceError

definition toast_description :: "submit_error \<Rightarrow> string" where
  "toast_description e =
     (case e of
        EmptyOrder \<Rightarrow> ''Please add items to your order''
      | MissingTableNumber \<Rightarrow> ''Please enter a table number for dine-in orders''
      | MissingDeliveryInfo \<Rightarrow> ''Please fill in all delivery information''
      | PersistenceError \<Rightarrow> ''Failed to create order'')"

definition orderData :: "form \<Rightarrow> store_reply \<Rightarrow> order_row" where
  "orderData f reply =
     \<lparr>o_id = new_order_id reply,
      o_employee_id = profile_id f,
      o_order_type = orderType f,
      o_table_number = (if orderType f = dine_in then Some (parseInt (tableNumber f)) else None),
      o_customer_name = (if orderType f = delivery then Some (customerName f) else None),
      o_customer_address = (if orderType f = delivery then Some (customerAddress f) else None),
      o_customer_location = (if orderType f = delivery then Some (customerLocation f) else None),
      o_total_amount = getTotalAmount (orderItems f),
      o_status = ''pending'',
      o_created_at = new_created_at reply\<rparr>"

definition orderItemsData :: "form \<Rightarrow> string \<Rightarrow> order_item_row list" where
  "orderItemsData f order_id =
     map (\<lambda>item.
            \<lparr>oi_order_id = order_id,
             oi_product_id = p_id (i_product item),
             oi_quantity = i_quantity item,
             oi_unit_price = p_price (i_product item),
             oi_subtotal = js_mul (p_price (i_product item)) (number_of_int (i_quantity item))\<rparr>)
         (orderItems f)"

subsection \<open>What the columns keep\<close>

text \<open>
  The payload of an insert travels as JSON text. \<^verbatim>\<open>JSON.stringify\<close> writes a finite number with
  the fewest significant digits that read back as the same double; of the two decimals of
  that many digits next to the number it takes the nearer one that reads back, and the one
  with an even last digit when both are equally near. \<^verbatim>\<open>NaN\<close> and the infinities are written
  \<^verbatim>\<open>null\<close>. \<open>json_text a\<close> is the decimal written for a finite double \<open>a\<close> other than zero,
  \<open>digits10 n\<close> the number of decimal digits of a positive whole number and \<open>exp10 x\<close> the
  exponent \<open>\<lfloor>log\<^sub>1\<^sub>0 x\<rfloor>\<close> of a positive \<open>x\<close>.
\<close>

function digits10 :: "int \<Rightarrow> int" where
  "digits10 n = (if n < 10 then 1 else 1 + digits10 (n div 10))"
  by pat_completeness auto
termination
  by (relation "measure nat") auto

definition exp10 :: "rat \<Rightarrow> int" where
  "exp10 x = (if 1 \<le> x then digits10 \<lfloor>x\<rfloor> - 1 else - digits10 (\<lceil>1 / x\<rceil> - 1))"

definition digits_near :: "rat \<Rightarrow> nat \<Rightarrow> rat list" where
  "digits_near a k =
     (let u = 10 powi (exp10 \<bar>a\<bar> + 1 - int k);
          s = \<lfloor>\<bar>a\<bar> / u\<rfloor>;
          lo = (if a < 0 then - 1 else 1) * of_int s * u;
          hi = (if a < 0 then - 1 else 1) * of_int (s + 1) * u;
          lo_first = (\<bar>a - lo\<bar> < \<bar>hi - a\<bar> \<or> (\<bar>a - lo\<bar> = \<bar>hi - a\<bar> \<and> even s))
      in filter (\<lambda>d. round_double d = Fin a) (if lo_first then [lo, hi] else [hi, lo]))"

definition json_text :: "rat \<Rightarrow> rat" where
  "json_text a =
     (if a = 0 then 0
      else case find (\<lambda>k. digits_near a k \<noteq> []) [1 ..< 18] of
             Some k \<Rightarrow> hd (digits_near a k)
           | None \<Rightarrow> a)"

text \<open>
  The columns \<^verbatim>\<open>total_amount\<close>, \<^verbatim>\<open>unit_price\<close> and \<^verbatim>\<open>subtotal\<close> are \<^verbatim>\<open>DECIMAL(10,2) NOT NULL\<close>:
  the text is read as the decimal it denotes and rounded to two places, a tie away from
  zero; \<^verbatim>\<open>null\<close>, and a rounded value of more than eight integer digits, are refused. The
  amount \<open>n / 100\<close> the column keeps comes back to a client as the double \<open>decimal n 2\<close>, and
  \<open>cents_of\<close> gives the \<open>n\<close> of a number that is such a double.
\<close>

definition round_half_away :: "rat \<Rightarrow> int" where
  "round_half_away x = (if 0 \<le> x then \<lfloor>x + 1 / 2\<rfloor> else - \<lfloor>- x + 1 / 2\<rfloor>)"

definition numeric_10_2 :: "number \<Rightarrow> number option" where
  "numeric_10_2 x =
     (case x of
        Fin a \<Rightarrow> (let n = round_half_away (json_text a * 100)
                  in if \<bar>n\<bar> < 10 ^ 10 then Some (decimal n 2) else None)
      | _ \<Rightarrow> None)"

definition cents_of :: "number \<Rightarrow> int option" where
  "cents_of x =
     (case x of
        Fin a \<Rightarrow> (let n = round_half_away (a * 100) in if decimal n 2 = x then Some n else None)
      | _ \<Rightarrow> None)"

text \<open>
  \<^verbatim>\<open>quantity\<close> is \<^verbatim>\<open>INTEGER NOT NULL\<close> and \<^verbatim>\<open>table_number\<close> is \<^verbatim>\<open>INTEGER\<close>: a number that is not a
  whole number of 32 bits is refused, and \<^verbatim>\<open>null\<close> (so also \<^verbatim>\<open>NaN\<close>) is kept as \<^verbatim>\<open>NULL\<close> in the
  table number.
\<close>

definition integer_column :: "int \<Rightarrow> int option" where
  "integer_column q = (if - (2 ^ 31) \<le> q \<and> q < 2 ^ 31 then Some q else None)"

definition integer_or_null :: "number option \<Rightarrow> number option option" where
  "integer_or_null x =
     (case x of
        None \<Rightarrow> Some None
      | Some (Fin a) \<Rightarrow>
          (if a = of_int \<lfloor>a\<rfloor> \<and> - (2 ^ 31) \<le> \<lfloor>a\<rfloor> \<and> \<lfloor>a\<rfloor> < 2 ^ 31 then Some (Some (Fin a)) else None)
      | Some _ \<Rightarrow> Some None)"

text \<open>
  The row a table keeps of a payload, or \<open>None\<close> when a column refuses its value. The column
  \<^verbatim>\<open>employee_id\<close> is \<^verbatim>\<open>NOT NULL\<close>, so a payload without it (\<^verbatim>\<open>profile?.id\<close> undefined) is refused.
  An insert of several rows keeps all of them or none.
\<close>

definition stored_order :: "order_row \<Rightarrow> order_row option" where
  "stored_order row =
     (if o_employee_id row = None then None
      else case integer_or_null (o_table_number row) of
             None \<Rightarrow> None
           | Some t \<Rightarrow>
               (case numeric_10_2 (o_total_amount row) of
                  None \<Rightarrow> None
                | Some a \<Rightarrow> Some (row\<lparr>o_table_number := t, o_total_amount := a\<rparr>)))"

definition stored_item :: "order_item_row \<Rightarrow> order_item_row option" where
  "stored_item it =
     (case integer_column (oi_quantity it) of
        None \<Rightarrow> None
      | Some q \<Rightarrow>
          (case numeric_10_2 (oi_unit_price it) of
             None \<Rightarrow> None
           | Some u \<Rightarrow>
               (case numeric_10_2 (oi_subtotal it) of
                  None \<Rightarrow> None
                | Some t \<Rightarrow> Some (it\<lparr>oi_quantity := q, oi_unit_price := u, oi_subtotal := t\<rparr>))))"

definition stored_items :: "order_item_row list \<Rightarrow> order_item_row list option" where
  "stored_items its =
     (if list_all (\<lambda>it. stored_item it \<noteq> None) its
      then Some (map (\<lambda>it. the (stored_item it)) its) else None)"

text \<open>
  The handler returns the failure shown, or the identifier of the order whose summary it
  navigates to, and the store as it leaves it. The empty string is the only falsy string.
  An insert fails when the store says so (\<open>reply\<close>) and when a column refuses a value; the
  identifier of the order is read from the row the first insert returns.
\<close>

definition handleSubmitOrder :: "store_reply \<Rightarrow> form \<Rightarrow> store \<Rightarrow> (submit_error + string) \<times> store" where
  "handleSubmitOrder reply f s =
     (if length (orderItems f) = 0 then (Inl EmptyOrder, s)
      else if orderType f = dine_in \<and> tableNumber f = [] then (Inl MissingTableNumber, s)
      else if orderType f = delivery
              \<and> (customerName f = [] \<or> customerAddress f = [] \<or> customerLocation f = [])
           then (Inl MissingDeliveryInfo, s)
      else case (if order_insert_error reply then None else stored_order (orderData f reply)) of
             None \<Rightarrow> (Inl PersistenceError, s)
           | Some row \<Rightarrow>
               (let s1 = s\<lparr>orders_table := orders_table s @ [row]\<rparr>
                in case (if items_insert_error reply then None
                         else stored_items (orderItemsData f (o_id row))) of
                     None \<Rightarrow> (Inl PersistenceError, s1)
                   | Some items \<Rightarrow>
                       (Inr (o_id row),
                        s1\<lparr>order_items_table := order_items_table s1 @ items\<rparr>)))"

section \<open>The orders list (Orders.tsx) and the order summary page\<close>

text \<open>
  An order as the orders list holds it: the row of the table with the joined creator and
  line items.
\<close>

record profile_ref =
  full_name :: "string option"
  email :: string

record item_ref =
  ir_id :: string
  ir_quantity :: int
  ir_product_name :: string

record order = order_row +
  profiles :: profile_ref
  order_items :: "item_ref list"

record toast =
  title :: string
  description :: string

text \<open>
  \<^verbatim>\<open>update({ status: newStatus }).eq('id', orderId)\<close> on the table, and the same replacement by
  \<^verbatim>\<open>orders.map\<close> on the list the page holds.
\<close>

definition set_status :: "string \<Rightarrow> string \<Rightarrow> 'a order_row_scheme list \<Rightarrow> 'a order_row_scheme list" where
  "set_status orderId newStatus rows =
     map (\<lambda>order. if o_id order = orderId then order\<lparr>o_status := newStatus\<rparr> else order) rows"

text \<open>
  The state is the store and the list of orders the page holds. \<open>update_error\<close> is the
  \<^verbatim>\<open>error\<close> field of the store's response: when the store rejects the update nothing
  changes and the failure is shown.
\<close>

definition updateOrderStatus ::
  "bool \<Rightarrow> store \<times> 'a order_row_scheme list \<Rightarrow> string \<Rightarrow> string
   \<Rightarrow> (store \<times> 'a order_row_scheme list) \<times> toast" where
  "updateOrderStatus update_error st orderId newStatus =
     (if update_error
      then (st, \<lparr>title = ''Error'', description = ''Failed to update order status''\<rparr>)
      else ((fst st\<lparr>orders_table := set_status orderId newStatus (orders_table (fst st))\<rparr>,
             set_status orderId newStatus (snd st)),
            \<lparr>title = ''Success'', description = ''Order status updated to '' @ newStatus\<rparr>))"

text \<open>
  The status buttons the orders list renders for an order, each given by the status its
  click passes to \<^verbatim>\<open>updateOrderStatus\<close>: "Start Preparation", then "Mark Complete".
\<close>

definition orders_page_buttons :: "string \<Rightarrow> string list" where
  "orders_page_buttons status =
     (if status = ''pending'' then [''in_progress''] else [])
     @ (if status = ''in_progress'' then [''completed''] else [])"

text \<open>
  The order summary page holds one order, or none when it was not found. Its handler
  writes \<^verbatim>\<open>'completed'\<close>; its button "Mark Complete" is rendered for a pending order.
\<close>

definition handleCompleteOrder ::
  "bool \<Rightarrow> store \<times> 'a order_row_scheme option
   \<Rightarrow> (store \<times> 'a order_row_scheme option) \<times> toast option" where
  "handleCompleteOrder update_error st =
     (case snd st of
        None \<Rightarrow> (st, None)
      | Some order \<Rightarrow>
          (if update_error
           then (st, Some \<lparr>title = ''Error'', description = ''Failed to complete order''\<rparr>)
           else ((fst st\<lparr>orders_table := set_status (o_id order) ''completed'' (orders_table (fst st))\<rparr>,
                  Some (order\<lparr>o_status := ''completed''\<rparr>)),
                 Some \<lparr>title = ''Success'', description = ''Order marked as completed!''\<rparr>)))"

definition summary_page_buttons :: "string \<Rightarrow> string list" where
  "summary_page_buttons status = (if status = ''pending'' then [''completed''] else [])"

text \<open>
  The statuses a control of either page writes for an order of a given status, and the
  position of a status in the life cycle \<open>pending\<close>, \<open>in_progress\<close>, \<open>completed\<close>.
\<close>

definition status_controls :: "string \<Rightarrow> string list" where
  "status_controls status = orders_page_buttons status @ summary_page_buttons status"

definition status_rank :: "string \<Rightarrow> nat option" where
  "status_rank status =
     (if status = ''pending'' then Some 0
      else if status = ''in_progress'' then Some 1
      else if status = ''completed'' then Some 2
      else None)"

subsection \<open>Grouping by date\<close>

text \<open>
  \<^verbatim>\<open>new Date(created_at)\<close> keeps milliseconds. \<^verbatim>\<open>toDateString()\<close> names the calendar date in the
  browser's time zone, \<open>tz\<close> minutes east of UTC; the string is stood for by the number of
  that day. \<^verbatim>\<open>new Date(key).getTime()\<close> is the local midnight that begins the day.
\<close>

definition toDateString :: "int \<Rightarrow> int \<Rightarrow> int" where
  "toDateString tz created_at = (created_at div 1000 + tz * 60000) div 86400000"

definition getTime :: "int \<Rightarrow> int \<Rightarrow> int" where
  "getTime tz dateKey = dateKey * 86400000 - tz * 60000"

text \<open>
  \<^verbatim>\<open>groups\<close> is an object with string keys: a new key is added after the existing ones, and
  \<^verbatim>\<open>Object.entries\<close> lists the keys in that order.
\<close>

fun push_group :: "int \<Rightarrow> 'a \<Rightarrow> (int \<times> 'a list) list \<Rightarrow> (int \<times> 'a list) list" where
  "push_group k x [] = [(k, [x])]"
| "push_group k x ((k', xs) # groups) =
     (if k = k' then (k', xs @ [x]) # groups else (k', xs) # push_group k x groups)"

text \<open>
  \<^verbatim>\<open>sort\<close> with the comparator \<^verbatim>\<open>getTime(b) - getTime(a)\<close> is a stable sort by decreasing
  \<^verbatim>\<open>getTime\<close>, that is by increasing \<open>- getTime\<close>.
\<close>

definition groupOrdersByDate :: "int \<Rightarrow> 'a order_row_scheme list \<Rightarrow> (int \<times> 'a order_row_scheme list) list" where
  "groupOrdersByDate tz os =
     sort_key (\<lambda>entry. - getTime tz (fst entry))
       (foldl (\<lambda>groups order. push_group (toDateString tz (o_created_at order)) order groups) [] os)"

section \<open>Dashboard statistics (fetchStats)\<close>

text \<open>
  \<^verbatim>\<open>new Date().toISOString().split('T')[0]\<close> is the UTC date of the clock, given in
  milliseconds. The bounds \<^verbatim>\<open>`${today}T00:00:00`\<close> and \<^verbatim>\<open>`${today}T23:59:59`\<close> are read by the
  store as time stamps of that day, in UTC; \<^verbatim>\<open>gte\<close> and \<^verbatim>\<open>lt\<close> keep the rows from the first
  bound on and before the second. The four queries are taken to be answered: a count or a
  list that the store fails to give is replaced by 0 in the source.
\<close>

definition iso_date :: "int \<Rightarrow> int" where
  "iso_date clock = clock div 86400000"

definition time_stamp :: "int \<Rightarrow> int \<Rightarrow> int \<Rightarrow> int \<Rightarrow> int" where
  "time_stamp day h m s = (((day * 24 + h) * 60 + m) * 60 + s) * 1000000"

definition in_window :: "int \<Rightarrow> 'a order_row_scheme \<Rightarrow> bool" where
  "in_window day row =
     (time_stamp day 0 0 0 \<le> o_created_at row \<and> o_created_at row < time_stamp day 23 59 59)"

record stats =
  totalOrders :: nat
  pendingOrders :: nat
  todayRevenue :: number
  activeProducts :: nat

definition fetchStats :: "int \<Rightarrow> store \<Rightarrow> stats" where
  "fetchStats clock s =
     (let today = iso_date clock;
          todayOrders = filter (in_window today) (orders_table s)
      in \<lparr>totalOrders = length (orders_table s),
          pendingOrders = length (filter (\<lambda>row. o_status row = ''pending'') (orders_table s)),
          todayRevenue = or_zero (foldl (\<lambda>sum row. js_add sum (o_total_amount row)) (Fin 0) todayOrders),
          activeProducts = length (filter is_active (products_table s))\<rparr>)"

section \<open>Sales reports (useFileManager.tsx, generateSalesReport)\<close>

text \<open>
  The query joins every order of the window with its line items and each line item with its
  product's name; reading the name of a product that is missing throws, which the handler
  catches.
\<close>

definition report_items :: "store \<Rightarrow> string \<Rightarrow> report_item list option" where
  "report_items s order_id =
     (let rows = filter (\<lambda>r. oi_order_id r = order_id) (order_items_table s);
          names = map (\<lambda>r. find (\<lambda>p. p_id p = oi_product_id r) (products_table s)) rows
      in if None \<in> set names then None
         else Some (map (\<lambda>r. \<lparr>ri_product = p_name (the (find (\<lambda>p. p_id p = oi_product_id r) (products_table s))),
                                ri_quantity = oi_quantity r,
                                ri_price = oi_unit_price r\<rparr>) rows))"

definition reportData :: "int \<Rightarrow> store \<Rightarrow> report_data option" where
  "reportData day s =
     (let os = filter (in_window day) (orders_table s);
          items = map (\<lambda>row. report_items s (o_id row)) os
      in if None \<in> set items then None
         else Some \<lparr>rd_date = day,
                    rd_totalOrders = length os,
                    rd_totalRevenue = or_zero (foldl (\<lambda>sum row. js_add sum (o_total_amount row)) (Fin 0) os),
                    rd_orders = map (\<lambda>row. \<lparr>ro_id = o_id row, ro_type = o_order_type row,
                                               ro_amount = o_total_amount row,
                                               ro_items = the (report_items s (o_id row))\<rparr>) os\<rparr>)"

text \<open>
  \<^verbatim>\<open>upsert\<close> without \<^verbatim>\<open>onConflict\<close> is \<^verbatim>\<open>INSERT ... ON CONFLICT\<close> on the primary key, which for
  \<^verbatim>\<open>sales_reports\<close> is the column \<^verbatim>\<open>id\<close>: a row whose \<^verbatim>\<open>id\<close> is already in the table replaces
  that row, any other row is added. No other column of the table is declared unique.
\<close>

definition upsert :: "sales_report_row \<Rightarrow> sales_report_row list \<Rightarrow> sales_report_row list" where
  "upsert row table =
     (if sr_id row \<in> sr_id ` set table
      then map (\<lambda>r. if sr_id r = sr_id row then row else r) table
      else table @ [row])"

text \<open>
  The object upserted names no \<^verbatim>\<open>id\<close>, so the row takes the column's default, a newly
  generated identifier. \<^verbatim>\<open>uploadFile\<close> then stores the document in the bucket; its result is
  the path, stood for by the date, or nothing when the upload fails (\<open>upload_error\<close>: the
  bucket refuses, for one, a path it already holds).
\<close>

record report_reply =
  new_report_id :: string
  upsert_error :: bool
  upload_error :: bool

definition generateSalesReport :: "report_reply \<Rightarrow> int \<Rightarrow> store \<Rightarrow> int option \<times> store" where
  "generateSalesReport reply date s =
     (let dateStr = iso_date date
      in case reportData dateStr s of
           None \<Rightarrow> (None, s)
         | Some rd \<Rightarrow>
             (if upsert_error reply then (None, s)
              else let s1 = s\<lparr>sales_reports_table :=
                               upsert \<lparr>sr_id = new_report_id reply, report_date = dateStr,
                                       total_orders = rd_totalOrders rd,
                                       total_revenue = rd_totalRevenue rd,
                                       report_data = rd\<rparr> (sales_reports_table s)\<rparr>
                   in if upload_error reply then (None, s1)
                      else (Some dateStr, s1\<lparr>sales_bucket := sales_bucket s1 @ [(dateStr, rd)]\<rparr>)))"

section \<open>Examples\<close>

text \<open>The two products of the specification's end-to-end scenario.\<close>

definition margherita :: product where
  "margherita = \<lparr>p_id = ''p1'', p_name = ''Margherita Pizza'', p_price = decimal 1299 2,
                  p_image_url = None, p_description = None\<rparr>"

definition soda :: product where
  "soda = \<lparr>p_id = ''p2'', p_name = ''Soda'', p_price = decimal 299 2,
            p_image_url = None, p_description = None\<rparr>"

text \<open>A pending dine-in order, and a store with nothing in it.\<close>

definition order1 :: order_row where
  "order1 = \<lparr>o_id = ''o1'', o_employee_id = Some ''e1'', o_order_type = dine_in,
              o_table_number = Some (Fin 5), o_customer_name = None, o_customer_address = None,
              o_customer_location = None, o_total_amount = Fin 10, o_status = ''pending'',
              o_created_at = time_stamp 20000 9 0 0\<rparr>"

definition empty_store :: store where
  "empty_store = \<lparr>orders_table = [], order_items_table = [], products_table = [],
                   sales_reports_table = [], sales_bucket = []\<rparr>"

text \<open>The form of the end-to-end scenario (table 5), and a store that accepts both inserts.\<close>

definition form1 :: form where
  "form1 = \<lparr>orderItems = [\<lparr>i_product = margherita, i_quantity = 2\<rparr>, \<lparr>i_product = soda, i_quantity = 1\<rparr>],
             orderType = dine_in, tableNumber = ''5'', customerName = [], customerAddress = [],
             customerLocation = [], profile_id = Some ''e1''\<rparr>"

definition reply1 :: store_reply where
  "reply1 = \<lparr>new_order_id = ''o2'', new_created_at = time_stamp 20000 12 0 0,
              order_insert_error = False, items_insert_error = False\<rparr>"

text \<open>
  Further orders: later the same day, thirty seconds and one second before midnight, and
  the day before.
\<close>

definition order2 :: order_row where
  "order2 = order1\<lparr>o_id := ''o12'', o_total_amount := Fin 20, o_status := ''completed'',
                     o_created_at := time_stamp 20000 14 0 0\<rparr>"

definition order3 :: order_row where
  "order3 = order1\<lparr>o_id := ''o13'', o_total_amount := Fin 5, o_created_at := time_stamp 20000 23 59 30\<rparr>"

definition order4 :: order_row where
  "order4 = order1\<lparr>o_id := ''o14'', o_total_amount := Fin 7, o_created_at := time_stamp 20000 23 59 59\<rparr>"

definition order5 :: order_row where
  "order5 = order1\<lparr>o_id := ''o15'', o_total_amount := Fin 3, o_created_at := time_stamp 19999 12 0 0\<rparr>"

text \<open>
  A clock at noon of the day of these orders, the store that holds them, and the store's
  answers to two report generations.
\<close>

definition clock0 :: int where
  "clock0 = 1728043200000"

definition store5 :: store where
  "store5 = empty_store\<lparr>orders_table := [order1, order2, order3, order4, order5]\<rparr>"

definition report_reply1 :: report_reply where
  "report_reply1 = \<lparr>new_report_id = ''r1'', upsert_error = False, upload_error = False\<rparr>"

definition report_reply2 :: report_reply where
  "report_reply2 = \<lparr>new_report_id = ''r2'', upsert_error = False, upload_error = True\<rparr>"

text \<open>A cart entry given by identifier, price and quantity.\<close>

definition priced :: "string \<Rightarrow> number \<Rightarrow> int \<Rightarrow> order_item" where
  "priced k p q = \<lparr>i_product = \<lparr>p_id = k, p_name = k, p_price = p, p_image_url = None,
                                  p_description = None\<rparr>,
                   i_quantity = q\<rparr>"

text \<open>The form of the scenario with a cart of three entries priced 0.10, 0.20 and 0.30.\<close>

definition form_tenths :: form where
  "form_tenths = form1\<lparr>orderItems := [priced ''t1'' (decimal 10 2) 1, priced ''t2'' (decimal 20 2) 1,
                                          priced ''t3'' (decimal 30 2) 1]\<rparr>"

section \<open>The order builder: properties\<close>

lemma find_item_None: "find (\<lambda>item. p_id (i_product item) = k) c = None \<longleftrightarrow> k \<notin> item_id ` set c"
  by (auto simp: find_None_iff item_id_def)

lemma addToOrder_ids:
  "map item_id (addToOrder c p) = (if p_id p \<in> item_id ` set c then map item_id c else map item_id c @ [p_id p])"
proof (cases "find (\<lambda>item. p_id (i_product item) = p_id p) c")
  case None
  then have "p_id p \<notin> item_id ` set c"
    by (simp add: find_item_None)
  with None show ?thesis
    by (simp add: addToOrder_def item_id_def)
next
  case (Some a)
  then have "p_id p \<in> item_id ` set c"
    using find_item_None [of "p_id p" c] by simp
  with Some show ?thesis
    by (simp add: addToOrder_def item_id_def comp_def)
qed

lemma quantity_of_Nil [simp]: "quantity_of [] k = 0"
  by (simp add: quantity_of_def)

lemma quantity_of_Cons:
  "quantity_of (x # c) k = (if item_id x = k then i_quantity x else quantity_of c k)"
  by (simp add: quantity_of_def)

lemma quantity_of_absent: "k \<notin> item_id ` set c \<Longrightarrow> quantity_of c k = 0"
  by (induction c) (auto simp: quantity_of_Cons)

lemma quantity_of_append_absent:
  "k \<notin> item_id ` set c \<Longrightarrow> quantity_of (c @ [x]) k = (if item_id x = k then i_quantity x else 0)"
  by (induction c) (auto simp: quantity_of_Cons)

lemma quantity_of_append_other:
  "item_id x \<noteq> k \<Longrightarrow> quantity_of (c @ [x]) k = quantity_of c k"
  by (induction c) (auto simp: quantity_of_Cons)

lemma quantity_of_map_bump:
  "quantity_of (map (\<lambda>item. if p_id (i_product item) = j
                              then item\<lparr>i_quantity := i_quantity item + 1\<rparr> else item) c) k
   = (if k = j \<and> k \<in> item_id ` set c then quantity_of c k + 1 else quantity_of c k)"
  by (induction c) (auto simp: quantity_of_Cons item_id_def)

lemma addToOrder_quantity:
  "quantity_of (addToOrder c p) k = (if k = p_id p then quantity_of c k + 1 else quantity_of c k)"
proof (cases "find (\<lambda>item. p_id (i_product item) = p_id p) c")
  case None
  then have absent: "p_id p \<notin> item_id ` set c"
    by (simp add: find_item_None)
  have "addToOrder c p = c @ [\<lparr>i_product = p, i_quantity = 1\<rparr>]"
    using None by (simp add: addToOrder_def)
  then show ?thesis
    using absent
    by (auto simp: quantity_of_append_absent quantity_of_append_other quantity_of_absent item_id_def)
next
  case (Some a)
  then have present: "p_id p \<in> item_id ` set c"
    using find_item_None [of "p_id p" c] by simp
  with Some show ?thesis
    by (simp add: addToOrder_def quantity_of_map_bump)
qed

lemma addToOrder_distinct: "distinct (map item_id c) \<Longrightarrow> distinct (map item_id (addToOrder c p))"
  by (auto simp: addToOrder_ids)

lemma foldl_addToOrder_distinct:
  "distinct (map item_id c) \<Longrightarrow> distinct (map item_id (foldl addToOrder c ps))"
  by (induction ps arbitrary: c) (simp_all add: addToOrder_distinct)

lemma foldl_addToOrder_ids:
  "item_id ` set (foldl addToOrder c ps) = item_id ` set c \<union> p_id ` set ps"
proof (induction ps arbitrary: c)
  case Nil
  then show ?case by simp
next
  case (Cons p ps)
  have "item_id ` set (addToOrder c p) = insert (p_id p) (item_id ` set c)"
    using addToOrder_ids [of c p] by (metis (no_types, lifting) insert_absorb list.set_map set_append
        Un_insert_right list.simps(15) sup_bot.right_neutral set_simps(1) empty_set)
  with Cons.IH [of "addToOrder c p"] show ?case by auto
qed

lemma foldl_addToOrder_quantity:
  "quantity_of (foldl addToOrder c ps) k = quantity_of c k + int (count_list (map p_id ps) k)"
  by (induction ps arbitrary: c) (simp_all add: addToOrder_quantity)

lemma quantity_of_member:
  "distinct (map item_id c) \<Longrightarrow> item \<in> set c \<Longrightarrow> quantity_of c (item_id item) = i_quantity item"
  by (induction c) (auto simp: quantity_of_Cons)

text \<open>
  C6. Starting from the empty cart, after any sequence of \<^verbatim>\<open>addToOrder\<close> calls the cart
  has exactly one entry for each distinct product identifier that was added and none for
  any other, and the quantity of an entry is the number of times its product was added
  (so a first addition gives quantity 1 and each repetition adds 1).
\<close>

theorem addToOrder_sequence:
  "distinct (map item_id (foldl addToOrder [] ps))
   \<and> item_id ` set (foldl addToOrder [] ps) = p_id ` set ps
   \<and> (\<forall>item \<in> set (foldl addToOrder [] ps).
         i_quantity item = int (count_list (map p_id ps) (item_id item)))"
proof (intro conjI ballI)
  show d: "distinct (map item_id (foldl addToOrder [] ps))"
    by (rule foldl_addToOrder_distinct) simp
  show "item_id ` set (foldl addToOrder [] ps) = p_id ` set ps"
    by (simp add: foldl_addToOrder_ids)
  fix item
  assume "item \<in> set (foldl addToOrder [] ps)"
  then have "i_quantity item = quantity_of (foldl addToOrder [] ps) (item_id item)"
    using d by (simp add: quantity_of_member)
  then show "i_quantity item = int (count_list (map p_id ps) (item_id item))"
    by (simp add: foldl_addToOrder_quantity)
qed

theorem addToOrder_sequence_witness:
  "map (\<lambda>item. (item_id item, i_quantity item)) (foldl addToOrder [] [margherita, soda, margherita])
     = [(''p1'', 2), (''p2'', 1)]
   \<and> distinct (map item_id (foldl addToOrder [] [margherita, soda, margherita]))
   \<and> item_id ` set (foldl addToOrder [] [margherita, soda, margherita]) = {''p1'', ''p2''}
   \<and> map (count_list (map p_id [margherita, soda, margherita])) [''p1'', ''p2''] = [2, 1]"
  using addToOrder_sequence [of "[margherita, soda, margherita]"]
  by (simp add: addToOrder_def margherita_def soda_def item_id_def)

subsection \<open>Changing a quantity\<close>

lemma updateQuantity_zero:
  "updateQuantity c k 0 = filter (\<lambda>item. item_id item \<noteq> k) c"
  by (simp add: updateQuantity_def item_id_def)

lemma updateQuantity_nonzero_ids: "n \<noteq> 0 \<Longrightarrow> map item_id (updateQuantity c k n) = map item_id c"
  by (simp add: updateQuantity_def item_id_def comp_def)

lemma updateQuantity_nonzero_products: "n \<noteq> 0 \<Longrightarrow> map i_product (updateQuantity c k n) = map i_product c"
  by (simp add: updateQuantity_def comp_def)

lemma updateQuantity_nonzero_quantities:
  "n \<noteq> 0 \<Longrightarrow> map i_quantity (updateQuantity c k n)
     = map (\<lambda>item. if item_id item = k then n else i_quantity item) c"
  by (simp add: updateQuantity_def item_id_def comp_def)

lemma cart_ok_addToOrder: "cart_ok c \<Longrightarrow> cart_ok (addToOrder c p)"
proof -
  assume ok: "cart_ok c"
  then have d: "distinct (map item_id (addToOrder c p))"
    by (simp add: cart_ok_def addToOrder_distinct)
  have "list_all (\<lambda>item. 1 \<le> i_quantity item) (addToOrder c p)"
    using ok by (auto simp: cart_ok_def addToOrder_def list_all_iff split: option.splits)
  with d show ?thesis by (simp add: cart_ok_def)
qed

lemma cart_ok_filter: "cart_ok c \<Longrightarrow> cart_ok (filter P c)"
  by (auto simp: cart_ok_def list_all_iff distinct_map_filter)

lemma cart_ok_updateQuantity: "cart_ok c \<Longrightarrow> 0 \<le> n \<Longrightarrow> cart_ok (updateQuantity c k n)"
proof (cases "n = 0")
  case True
  assume "cart_ok c"
  then show ?thesis
    using True by (simp add: updateQuantity_zero cart_ok_filter)
next
  case False
  assume ok: "cart_ok c" and "0 \<le> n"
  then have "1 \<le> n" using False by simp
  then have "list_all (\<lambda>item. 1 \<le> i_quantity item) (updateQuantity c k n)"
    using ok False by (auto simp: cart_ok_def updateQuantity_def list_all_iff)
  then show ?thesis
    using ok False by (simp add: cart_ok_def updateQuantity_nonzero_ids)
qed

lemma cart_ok_step: "cart_ok c \<Longrightarrow> cart_ok (cart_step c ev)"
proof (cases ev)
  case (ClickProduct p)
  assume "cart_ok c"
  then show ?thesis using ClickProduct by (simp add: cart_step_def cart_ok_addToOrder)
next
  case (ClickMinus n)
  assume ok: "cart_ok c"
  show ?thesis
  proof (cases "n < length c")
    case True
    then have "1 \<le> i_quantity (c ! n)"
      using ok by (simp add: cart_ok_def list_all_length)
    then show ?thesis
      using ok True ClickMinus by (simp add: cart_step_def cart_ok_updateQuantity)
  next
    case False
    then show ?thesis using ok ClickMinus by (simp add: cart_step_def)
  qed
next
  case (ClickPlus n)
  assume ok: "cart_ok c"
  show ?thesis
  proof (cases "n < length c")
    case True
    then have "1 \<le> i_quantity (c ! n)"
      using ok by (simp add: cart_ok_def list_all_length)
    then show ?thesis
      using ok True ClickPlus by (simp add: cart_step_def cart_ok_updateQuantity)
  next
    case False
    then show ?thesis using ok ClickPlus by (simp add: cart_step_def)
  qed
qed

lemma cart_ok_run: "cart_ok c \<Longrightarrow> cart_ok (foldl cart_step c evs)"
  by (induction evs arbitrary: c) (simp_all add: cart_ok_step)

text \<open>
  C8, as amended. \<^verbatim>\<open>updateQuantity\<close> removes the entry of the product when the new quantity
  is 0, and for every other new quantity, a negative one included, keeps the entries and
  their products and stores the new quantity in the entry of the product: nothing is
  rejected. The page's own controls ask for an entry's quantity less one or plus one, so
  from the empty cart every sequence of product clicks and minus and plus clicks leaves a
  cart with one entry per product and every quantity at least 1.
\<close>

theorem updateQuantity_stores_request:
  "updateQuantity c k 0 = filter (\<lambda>item. item_id item \<noteq> k) c
   \<and> k \<notin> item_id ` set (updateQuantity c k 0)
   \<and> (n \<noteq> 0 \<longrightarrow>
        map i_product (updateQuantity c k n) = map i_product c
        \<and> map i_quantity (updateQuantity c k n)
            = map (\<lambda>item. if item_id item = k then n else i_quantity item) c)
   \<and> cart_ok (foldl cart_step [] evs)"
proof (intro conjI impI)
  show "updateQuantity c k 0 = filter (\<lambda>item. item_id item \<noteq> k) c"
    by (rule updateQuantity_zero)
  show "k \<notin> item_id ` set (updateQuantity c k 0)"
    by (auto simp: updateQuantity_zero)
  show "cart_ok (foldl cart_step [] evs)"
    by (rule cart_ok_run) (simp add: cart_ok_def)
next
  assume "n \<noteq> 0"
  then show "map i_product (updateQuantity c k n) = map i_product c"
    by (rule updateQuantity_nonzero_products)
next
  assume "n \<noteq> 0"
  then show "map i_quantity (updateQuantity c k n)
            = map (\<lambda>item. if item_id item = k then n else i_quantity item) c"
    by (rule updateQuantity_nonzero_quantities)
qed

text \<open>
  C8 as stated fails: asked for the quantity \<open>-3\<close>, \<^verbatim>\<open>updateQuantity\<close> stores it.
\<close>

theorem updateQuantity_negative_stored:
  "map i_quantity (updateQuantity [\<lparr>i_product = margherita, i_quantity = 2\<rparr>] ''p1'' (- 3)) = [- 3]"
  by (simp add: updateQuantity_def margherita_def)

theorem updateQuantity_stores_request_witness:
  "map (\<lambda>item. (item_id item, i_quantity item))
       (updateQuantity [\<lparr>i_product = margherita, i_quantity = 2\<rparr>, \<lparr>i_product = soda, i_quantity = 1\<rparr>] ''p1'' 5)
     = [(''p1'', 5), (''p2'', 1)]
   \<and> map (\<lambda>item. (item_id item, i_quantity item))
       (updateQuantity [\<lparr>i_product = margherita, i_quantity = 2\<rparr>, \<lparr>i_product = soda, i_quantity = 1\<rparr>] ''p1'' 0)
     = [(''p2'', 1)]
   \<and> map (\<lambda>item. (item_id item, i_quantity item))
       (foldl cart_step [] [ClickProduct margherita, ClickProduct soda, ClickPlus 0, ClickMinus 1])
     = [(''p1'', 2)]
   \<and> cart_ok (foldl cart_step [] [ClickProduct margherita, ClickProduct soda, ClickPlus 0, ClickMinus 1])"
  using updateQuantity_stores_request [of "[\<lparr>i_product = margherita, i_quantity = 2\<rparr>, \<lparr>i_product = soda, i_quantity = 1\<rparr>]" "''p1''" 5
      "[ClickProduct margherita, ClickProduct soda, ClickPlus 0, ClickMinus 1]"]
  by (simp add: updateQuantity_def cart_step_def addToOrder_def margherita_def soda_def item_id_def)

section \<open>Status changes: properties\<close>




lemma status_controls_cases:
  "status_controls status =
     (if status = ''pending'' then [''in_progress'', ''completed'']
      else if status = ''in_progress'' then [''completed'']
      else [])"
  by (simp add: status_controls_def orders_page_buttons_def summary_page_buttons_def)

lemma rank_pending: "status_rank ''pending'' = Some 0"
  by (simp add: status_rank_def)

lemma rank_in_progress: "status_rank ''in_progress'' = Some 1"
  by (simp add: status_rank_def)

lemma rank_completed: "status_rank ''completed'' = Some 2"
  by (simp add: status_rank_def)

lemma forward_pending_in_progress:
  "\<exists>i j. status_rank ''pending'' = Some i \<and> status_rank ''in_progress'' = Some j \<and> i < j"
  by (simp add: rank_pending rank_in_progress)

lemma forward_pending_completed:
  "\<exists>i j. status_rank ''pending'' = Some i \<and> status_rank ''completed'' = Some j \<and> i < j"
  by (simp add: rank_pending rank_completed)

lemma forward_in_progress_completed:
  "\<exists>i j. status_rank ''in_progress'' = Some i \<and> status_rank ''completed'' = Some j \<and> i < j"
  by (simp add: rank_in_progress rank_completed)

lemma status_controls_rank:
  assumes "t \<in> set (status_controls status)"
  shows "\<exists>i j. status_rank status = Some i \<and> status_rank t = Some j \<and> i < j"
proof (cases "status = ''pending''")
  case True
  with assms have "t = ''in_progress'' \<or> t = ''completed''"
    by (simp add: status_controls_cases)
  then show ?thesis
  proof
    assume "t = ''in_progress''"
    with True show ?thesis by (simp only: forward_pending_in_progress)
  next
    assume "t = ''completed''"
    with True show ?thesis by (simp only: forward_pending_completed)
  qed
next
  case False
  show ?thesis
  proof (cases "status = ''in_progress''")
    case True
    with assms have "t = ''completed''"
      by (simp add: status_controls_cases)
    with True show ?thesis by (simp only: forward_in_progress_completed)
  next
    case False
    with \<open>status \<noteq> ''pending''\<close> assms show ?thesis
      by (simp add: status_controls_cases)
  qed
qed

lemma set_status_Nil: "set_status orderId newStatus [] = []"
  by (simp add: set_status_def)

lemma set_status_Cons:
  "set_status orderId newStatus (r # rows)
     = (if o_id r = orderId then r\<lparr>o_status := newStatus\<rparr> else r) # set_status orderId newStatus rows"
  by (simp add: set_status_def)

lemma set_status_hit:
  "order' \<in> set (set_status orderId newStatus rows) \<Longrightarrow> o_id order' = orderId \<Longrightarrow> o_status order' = newStatus"
proof (induction rows)
  case Nil
  then show ?case by (simp add: set_status_Nil)
next
  case (Cons r rows)
  from Cons.prems(1)
  have "order' = (if o_id r = orderId then r\<lparr>o_status := newStatus\<rparr> else r)
        \<or> order' \<in> set (set_status orderId newStatus rows)"
    by (simp only: set_status_Cons set_ConsD list.set insert_iff)
  then show ?case
  proof
    assume eq: "order' = (if o_id r = orderId then r\<lparr>o_status := newStatus\<rparr> else r)"
    show ?thesis
    proof (cases "o_id r = orderId")
      case True
      with eq show ?thesis by simp
    next
      case False
      with eq Cons.prems(2) show ?thesis by simp
    qed
  next
    assume "order' \<in> set (set_status orderId newStatus rows)"
    then show ?thesis using Cons.IH Cons.prems(2) by blast
  qed
qed

lemma orders_page_buttons_cases:
  "orders_page_buttons status =
     (if status = ''pending'' then [''in_progress'']
      else if status = ''in_progress'' then [''completed''] else [])"
  by (simp add: orders_page_buttons_def)

lemma orders_button_effect:
  assumes "order' \<in> set (snd (fst (updateOrderStatus False (s, os) (o_id order) t)))"
    and "o_id order' = o_id order"
  shows "o_status order' = t"
proof -
  have "snd (fst (updateOrderStatus False (s, os) (o_id order) t)) = set_status (o_id order) t os"
    by (simp add: updateOrderStatus_def)
  with assms(1) have "order' \<in> set (set_status (o_id order) t os)"
    by simp
  then show ?thesis
    using assms(2) by (rule set_status_hit)
qed

lemma summary_button_target:
  assumes "t \<in> set (summary_page_buttons status)"
  shows "t = ''completed''"
proof (cases "status = ''pending''")
  case True
  with assms show ?thesis by (simp add: summary_page_buttons_def)
next
  case False
  with assms show ?thesis by (simp add: summary_page_buttons_def)
qed

lemma summary_button_effect:
  assumes "t \<in> set (summary_page_buttons (o_status order))"
  shows "snd (fst (handleCompleteOrder False (s, Some order))) = Some (order\<lparr>o_status := t\<rparr>)"
proof -
  from assms have "t = ''completed''"
    by (rule summary_button_target)
  then show ?thesis
    by (simp add: handleCompleteOrder_def)
qed

text \<open>
  C1, as amended. The orders list offers \<open>in_progress\<close> for a pending order and
  \<open>completed\<close> for an order in progress; the order summary page offers \<open>completed\<close> for a
  pending order, in one step; no page offers anything for another status, so nothing can be
  asked of a completed order. Every status a control writes is later in the life cycle than
  the status of the order it is rendered for: no control reverts a status. A click on a
  control writes the control's status and no other (when the store accepts the write).
\<close>

theorem status_controls_forward:
  "orders_page_buttons status =
     (if status = ''pending'' then [''in_progress'']
      else if status = ''in_progress'' then [''completed''] else [])
   \<and> summary_page_buttons status = (if status = ''pending'' then [''completed''] else [])
   \<and> (\<forall>t \<in> set (status_controls status).
         \<exists>i j. status_rank status = Some i \<and> status_rank t = Some j \<and> i < j)
   \<and> (\<forall>t \<in> set (orders_page_buttons (o_status order)).
         \<forall>order' \<in> set (snd (fst (updateOrderStatus False (s, os) (o_id order) t))).
           o_id order' = o_id order \<longrightarrow> o_status order' = t)
   \<and> (\<forall>t \<in> set (summary_page_buttons (o_status order)).
         snd (fst (handleCompleteOrder False (s, Some order))) = Some (order\<lparr>o_status := t\<rparr>))"
proof (intro conjI ballI impI)
  show "orders_page_buttons status =
     (if status = ''pending'' then [''in_progress'']
      else if status = ''in_progress'' then [''completed''] else [])"
    by (rule orders_page_buttons_cases)
  show "summary_page_buttons status = (if status = ''pending'' then [''completed''] else [])"
    by (simp add: summary_page_buttons_def)
next
  fix t assume "t \<in> set (status_controls status)"
  then show "\<exists>i j. status_rank status = Some i \<and> status_rank t = Some j \<and> i < j"
    by (rule status_controls_rank)
next
  fix t order'
  assume "order' \<in> set (snd (fst (updateOrderStatus False (s, os) (o_id order) t)))"
    and "o_id order' = o_id order"
  then show "o_status order' = t"
    by (rule orders_button_effect)
next
  fix t assume "t \<in> set (summary_page_buttons (o_status order))"
  then show "snd (fst (handleCompleteOrder False (s, Some order))) = Some (order\<lparr>o_status := t\<rparr>)"
    by (rule summary_button_effect)
qed

text \<open>
  C1 as stated fails: for a pending order the summary page renders "Mark Complete", and
  its handler takes the order from \<open>pending\<close> to \<open>completed\<close> directly.
\<close>

theorem pending_completed_in_one_step:
  "summary_page_buttons (o_status order1) = [''completed'']
   \<and> map o_status (orders_table (fst (fst (handleCompleteOrder False (empty_store\<lparr>orders_table := [order1]\<rparr>, Some order1)))))
       = [''completed'']"
  by (simp add: summary_page_buttons_def handleCompleteOrder_def set_status_def order1_def empty_store_def)

lemma order1_status: "o_status order1 = ''pending''"
  by (simp add: order1_def)

theorem status_controls_forward_witness:
  "''completed'' \<in> set (status_controls ''pending'')
   \<and> (\<exists>i j. status_rank ''pending'' = Some i \<and> status_rank ''completed'' = Some j \<and> i < j)
   \<and> ''in_progress'' \<in> set (orders_page_buttons (o_status order1))
   \<and> order1\<lparr>o_status := ''in_progress''\<rparr>
       \<in> set (snd (fst (updateOrderStatus False (empty_store\<lparr>orders_table := [order1]\<rparr>, [order1])
                            (o_id order1) ''in_progress'')))
   \<and> o_status (order1\<lparr>o_status := ''in_progress''\<rparr>) = ''in_progress''
   \<and> ''completed'' \<in> set (summary_page_buttons (o_status order1))
   \<and> snd (fst (handleCompleteOrder False (empty_store\<lparr>orders_table := [order1]\<rparr>, Some order1)))
       = Some (order1\<lparr>o_status := ''completed''\<rparr>)"
proof -
  note th = status_controls_forward [of "''pending''" order1 "empty_store\<lparr>orders_table := [order1]\<rparr>" "[order1]"]
  have m1: "''completed'' \<in> set (status_controls ''pending'')"
    by (simp add: status_controls_cases)
  have m2: "''completed'' \<in> set (summary_page_buttons (o_status order1))"
    by (simp add: summary_page_buttons_def order1_status)
  have m3: "''in_progress'' \<in> set (orders_page_buttons (o_status order1))"
    by (simp add: orders_page_buttons_def order1_status)
  have m4: "order1\<lparr>o_status := ''in_progress''\<rparr>
       \<in> set (snd (fst (updateOrderStatus False (empty_store\<lparr>orders_table := [order1]\<rparr>, [order1])
                            (o_id order1) ''in_progress'')))"
    by (simp add: updateOrderStatus_def set_status_Cons set_status_Nil)
  have m5: "o_id (order1\<lparr>o_status := ''in_progress''\<rparr>) = o_id order1"
    by simp
  have r1: "\<exists>i j. status_rank ''pending'' = Some i \<and> status_rank ''completed'' = Some j \<and> i < j"
    using th [THEN conjunct2, THEN conjunct2, THEN conjunct1] m1 by (rule bspec)
  have r2: "snd (fst (handleCompleteOrder False (empty_store\<lparr>orders_table := [order1]\<rparr>, Some order1)))
       = Some (order1\<lparr>o_status := ''completed''\<rparr>)"
    using th [THEN conjunct2, THEN conjunct2, THEN conjunct2, THEN conjunct2] m2 by (rule bspec)
  have r3: "o_status (order1\<lparr>o_status := ''in_progress''\<rparr>) = ''in_progress''"
    using th [THEN conjunct2, THEN conjunct2, THEN conjunct2, THEN conjunct1, THEN bspec, OF m3,
        THEN bspec, OF m4] m5 by (rule mp)
  from m1 r1 m3 m4 r3 m2 r2 show ?thesis by (intro conjI)
qed

section \<open>Evaluating double arithmetic\<close>

lemma bitlen_numeral_unfold: "bitlen (numeral n) = bitlen (numeral n div 2) + 1"
  by (subst compute_bitlen) simp

lemma bitlen_one: "bitlen 1 = 1"
  by (subst compute_bitlen) simp

lemma floor_rat_numeral: "\<lfloor>numeral a / (numeral b :: rat)\<rfloor> = numeral a div numeral b"
  by (metis floor_divide_of_int_eq of_int_numeral)

lemma ceiling_rat_numeral: "\<lceil>numeral a / (numeral b :: rat)\<rceil> = - (- numeral a div numeral b)"
  by (metis ceiling_def floor_divide_of_int_eq minus_divide_left of_int_minus of_int_numeral)

lemmas double_eval =
  decimal_def number_of_int_def round_double_def ulp_def binade_def round_half_even_def Let_def
  bitlen_numeral_unfold bitlen_one floor_rat_numeral ceiling_rat_numeral power_int_minus

lemma js_add_Fin: "js_add (Fin a) (Fin b) = round_double (a + b)"
  by (simp add: js_add_def)

lemma js_mul_Fin: "js_mul (Fin a) (Fin b) = round_double (a * b)"
  by (simp add: js_mul_def)

lemmas round_eval =
  round_double_def ulp_def binade_def round_half_even_def Let_def
  bitlen_numeral_unfold bitlen_one floor_rat_numeral ceiling_rat_numeral power_int_minus

lemma number_of_int_1: "number_of_int 1 = Fin 1"
  by (simp add: double_eval)

lemma number_of_int_2: "number_of_int 2 = Fin 2"
  by (simp add: double_eval)

lemma decimal_299: "decimal 299 2 = Fin (1683220360729723 / 562949953421312)"
  by (simp add: double_eval)

lemma decimal_1299: "decimal 1299 2 = Fin (7312719894942843 / 562949953421312)"
  by (simp add: double_eval)

lemma decimal_2598: "decimal 2598 2 = Fin (7312719894942843 / 281474976710656)"
  by (simp add: double_eval)

lemma decimal_2897: "decimal 2897 2 = Fin (1019291259413463 / 35184372088832)"
  by (simp add: double_eval)

subsection \<open>The rounding is to nearest\<close>

text \<open>
  \<open>binade\<close> is the exponent of the power of two at or below a positive number, and
  \<open>round_double\<close> returns a multiple of the spacing that is at most half a spacing away.
\<close>

lemma binade_bounds_ge1:
  fixes x :: rat
  assumes "1 \<le> x"
  shows "2 powi binade x \<le> x \<and> x < 2 powi (binade x + 1)"
proof -
  let ?n = "\<lfloor>x\<rfloor>"
  from assms have n: "1 \<le> ?n" by simp
  then have pos: "0 < ?n" by simp
  from bitlen_bounds [OF pos]
  have lo: "2 ^ nat (bitlen ?n - 1) \<le> ?n" and hi: "?n < 2 ^ nat (bitlen ?n)"
    by simp_all
  have b1: "1 \<le> bitlen ?n"
    using pos bitlen_eq_zero_iff [of ?n] bitlen_nonneg [of ?n] by linarith
  have e: "binade x = bitlen ?n - 1"
    using assms by (simp add: binade_def)
  have "(2::rat) powi (bitlen ?n - 1) = 2 ^ nat (bitlen ?n - 1)"
    using b1 by (simp add: power_int_def)
  also have "\<dots> = of_int (2 ^ nat (bitlen ?n - 1))"
    by simp
  also have "\<dots> \<le> of_int ?n"
    using lo by (simp only: of_int_le_iff)
  also have "\<dots> \<le> x"
    by simp
  finally have low: "2 powi binade x \<le> x"
    by (simp only: e)
  have "x < of_int (?n + 1)"
    by linarith
  also have "\<dots> \<le> of_int (2 ^ nat (bitlen ?n))"
    using hi by (simp only: of_int_le_iff)
  also have "\<dots> = (2::rat) ^ nat (bitlen ?n)"
    by simp
  also have "\<dots> = 2 powi (bitlen ?n)"
    using b1 by (simp add: power_int_def)
  finally have "x < 2 powi (binade x + 1)"
    by (simp add: e)
  with low show ?thesis by simp
qed


lemma binade_bounds_lt1:
  fixes x :: rat
  assumes "0 < x" and "x < 1"
  shows "2 powi binade x \<le> x \<and> x < 2 powi (binade x + 1)"
proof -
  let ?y = "1 / x"
  let ?n = "\<lceil>?y\<rceil> - 1"
  let ?k = "bitlen ?n"
  from assms have y: "1 < ?y" by simp
  then have "2 \<le> \<lceil>?y\<rceil>"
    by (simp add: le_ceiling_iff)
  then have pos: "0 < ?n" by simp
  have n_lt: "of_int ?n < ?y" and n_ge: "?y \<le> of_int ?n + 1"
    using ceiling_correct [of ?y] by simp_all
  from bitlen_bounds [OF pos]
  have lo: "2 ^ nat (?k - 1) \<le> ?n" and hi: "?n < 2 ^ nat ?k"
    by simp_all
  have k1: "1 \<le> ?k"
    using pos bitlen_eq_zero_iff [of ?n] bitlen_nonneg [of ?n] by linarith
  have e: "binade x = - ?k"
    using assms by (simp add: binade_def)
  have "?y \<le> of_int (?n + 1)"
    using n_ge by simp
  also have "\<dots> \<le> of_int (2 ^ nat ?k)"
    using hi by (simp only: of_int_le_iff)
  also have "\<dots> = (2::rat) ^ nat ?k"
    by simp
  finally have "?y \<le> 2 ^ nat ?k" .
  with assms(1) have "1 \<le> x * 2 ^ nat ?k"
    by (simp add: field_simps)
  then have "1 / 2 ^ nat ?k \<le> x"
    by (simp add: field_simps)
  moreover have "(2::rat) powi (- ?k) = 1 / 2 ^ nat ?k"
    using k1 by (simp add: power_int_def field_simps)
  ultimately have low: "2 powi binade x \<le> x"
    by (simp only: e)
  have "(2::rat) ^ nat (?k - 1) = of_int (2 ^ nat (?k - 1))"
    by simp
  also have "\<dots> \<le> of_int ?n"
    using lo by (simp only: of_int_le_iff)
  also have "\<dots> < ?y"
    by (rule n_lt)
  finally have "(2::rat) ^ nat (?k - 1) < 1 / x" .
  with assms(1) have "x * 2 ^ nat (?k - 1) < 1"
    by (simp add: field_simps)
  then have "x < 1 / 2 ^ nat (?k - 1)"
    by (simp add: field_simps)
  moreover have "(2::rat) powi (- ?k + 1) = 1 / 2 ^ nat (?k - 1)"
  proof (cases "?k = 1")
    case True
    then show ?thesis by simp
  next
    case False
    with k1 have "- ?k + 1 < 0" by simp
    moreover have "nat (- (- ?k + 1)) = nat (?k - 1)" by simp
    ultimately show ?thesis
      by (simp add: power_int_def field_simps)
  qed
  ultimately have "x < 2 powi (binade x + 1)"
    by (simp only: e)
  with low show ?thesis by simp
qed

lemma binade_bounds:
  fixes x :: rat
  assumes "0 < x"
  shows "2 powi binade x \<le> x \<and> x < 2 powi (binade x + 1)"
  using assms binade_bounds_ge1 [of x] binade_bounds_lt1 [of x] by (cases "1 \<le> x") simp_all

lemma round_half_even_int: "round_half_even (of_int m) = m"
  by (simp add: round_half_even_def)

lemma round_half_even_near: "\<bar>of_int (round_half_even x) - x\<bar> \<le> 1 / 2"
proof -
  let ?f = "\<lfloor>x\<rfloor>"
  have f: "of_int ?f \<le> x" "x < of_int ?f + 1"
    by linarith+
  consider "x - of_int ?f < 1 / 2" | "1 / 2 < x - of_int ?f" | "x - of_int ?f = 1 / 2"
    by linarith
  then show ?thesis
  proof cases
    case 1
    then have eq: "round_half_even x = ?f"
      by (simp add: round_half_even_def Let_def)
    from 1 of_int_floor_le [of x] have "\<bar>of_int ?f - x\<bar> \<le> 1 / 2"
      by linarith
    then show ?thesis by (simp only: eq)
  next
    case 2
    then have eq: "round_half_even x = ?f + 1"
      by (simp add: round_half_even_def Let_def)
    from 2 f(2) have "\<bar>of_int (?f + 1) - x\<bar> \<le> 1 / 2"
      by (simp only: of_int_add of_int_1) linarith?
    then show ?thesis by (simp only: eq)
  next
    case 3
    then have "round_half_even x = ?f \<or> round_half_even x = ?f + 1"
      by (simp add: round_half_even_def Let_def)
    then show ?thesis
    proof
      assume eq: "round_half_even x = ?f"
      from 3 have "\<bar>of_int ?f - x\<bar> \<le> 1 / 2"
        by linarith
      then show ?thesis by (simp only: eq)
    next
      assume eq: "round_half_even x = ?f + 1"
      from 3 have "\<bar>of_int (?f + 1) - x\<bar> \<le> 1 / 2"
        by (simp only: of_int_add of_int_1) linarith?
      then show ?thesis by (simp only: eq)
    qed
  qed
qed

lemma ulp_positive: "0 < ulp x"
  by (simp add: ulp_def)

lemma round_double_near:
  assumes "round_double x = Fin y"
  shows "\<bar>y - x\<bar> \<le> ulp x / 2 \<and> y = of_int (round_half_even (x / ulp x)) * ulp x"
proof (cases "x = 0")
  case True
  with assms show ?thesis
    using ulp_positive [of 0] by (simp add: round_double_def round_half_even_def)
next
  case False
  let ?m = "round_half_even (x / ulp x)"
  from assms False have y: "y = of_int ?m * ulp x"
    by (simp add: round_double_def Let_def split: if_splits)
  have "\<bar>of_int ?m - x / ulp x\<bar> \<le> 1 / 2"
    by (rule round_half_even_near)
  then have "\<bar>of_int ?m - x / ulp x\<bar> * ulp x \<le> 1 / 2 * ulp x"
    using ulp_positive [of x] by (simp only: mult_le_cancel_right_pos)
  moreover have "\<bar>of_int ?m - x / ulp x\<bar> * ulp x = \<bar>of_int ?m * ulp x - x\<bar>"
  proof -
    have "\<bar>of_int ?m - x / ulp x\<bar> * ulp x = \<bar>(of_int ?m - x / ulp x) * ulp x\<bar>"
      using ulp_positive [of x] by (simp add: abs_mult)
    also have "(of_int ?m - x / ulp x) * ulp x = of_int ?m * ulp x - x"
      using ulp_positive [of x] by (simp add: field_simps)
    finally show ?thesis .
  qed
  ultimately show ?thesis
    using y by simp
qed

lemma round_double_multiple:
  fixes x :: rat
  assumes "x \<noteq> 0" and "ulp x = 1 / 2 ^ k" and "x = of_int n" and "\<bar>x\<bar> < 2 ^ 1024"
  shows "round_double x = Fin x"
proof -
  have "x / ulp x = of_int (n * 2 ^ k)"
    by (simp only: assms(2)) (simp add: assms(3))
  then have "round_half_even (x / ulp x) = n * 2 ^ k"
    by (simp only: round_half_even_int)
  then have "of_int (round_half_even (x / ulp x)) * ulp x = x"
    by (simp only: assms(2)) (simp add: assms(3))
  with assms(1,4) show ?thesis
    by (simp add: round_double_def Let_def)
qed



lemma binade_int_le:
  fixes a :: rat
  assumes "1 \<le> a" and "a < 2 ^ 53"
  shows "0 \<le> binade a \<and> binade a \<le> 52"
proof -
  have b: "binade a = bitlen \<lfloor>a\<rfloor> - 1"
    using assms(1) by (simp add: binade_def)
  from assms(1) have pos: "0 < \<lfloor>a\<rfloor>" by simp
  then have b1: "1 \<le> bitlen \<lfloor>a\<rfloor>"
    using bitlen_eq_zero_iff [of "\<lfloor>a\<rfloor>"] bitlen_nonneg [of "\<lfloor>a\<rfloor>"] by linarith
  from binade_bounds_ge1 [OF assms(1)] have "2 powi binade a \<le> a"
    by simp
  with assms(2) have "(2::rat) powi binade a < 2 ^ 53"
    by linarith
  moreover have "(2::rat) powi binade a = 2 ^ nat (binade a)"
    using b b1 by (simp add: power_int_def)
  ultimately have lt: "(2::rat) ^ nat (binade a) < 2 ^ 53"
    by (simp only:)
  have "nat (binade a) < 53"
  proof (rule ccontr)
    assume "\<not> nat (binade a) < 53"
    then have "53 \<le> nat (binade a)" by simp
    then have "(2::rat) ^ 53 \<le> 2 ^ nat (binade a)"
      by (rule power_increasing) simp
    with lt show False by linarith
  qed
  with b b1 show ?thesis by linarith
qed

lemma number_of_int_edge_pos: "number_of_int 9007199254740992 = Fin 9007199254740992"
  by (simp add: double_eval)



lemma number_of_int_edge_neg: "number_of_int (- 9007199254740992) = Fin (- 9007199254740992)"
  by (simp add: double_eval)

lemma number_of_int_small:
  assumes "n \<noteq> 0" and "\<bar>n\<bar> < 2 ^ 53"
  shows "number_of_int n = Fin (of_int n)"
proof -
  let ?x = "of_int n :: rat"
  from assms(2) have "of_int \<bar>n\<bar> < (of_int (2 ^ 53) :: rat)"
    by (simp only: of_int_less_iff)
  then have a_lt: "\<bar>?x\<bar> < 2 ^ 53"
    by (simp only: of_int_abs of_int_power of_int_numeral)
  from assms(1) have "1 \<le> \<bar>n\<bar>" by linarith
  then have "(of_int 1 :: rat) \<le> of_int \<bar>n\<bar>"
    by (simp only: of_int_le_iff)
  then have a_ge: "1 \<le> \<bar>?x\<bar>"
    by (simp only: of_int_abs of_int_1)
  from binade_int_le [OF a_ge a_lt] have b: "0 \<le> binade \<bar>?x\<bar>" "binade \<bar>?x\<bar> \<le> 52"
    by (rule conjunct1, rule conjunct2)
  then have "max (binade \<bar>?x\<bar> - 52) (- 1074) = - int (nat (52 - binade \<bar>?x\<bar>))"
    by linarith
  then have "ulp ?x = 2 powi (- int (nat (52 - binade \<bar>?x\<bar>)))"
    by (simp only: ulp_def)
  also have "\<dots> = 1 / 2 ^ nat (52 - binade \<bar>?x\<bar>)"
    by (simp only: power_int_minus power_int_of_nat inverse_eq_divide)
  finally have u: "ulp ?x = 1 / 2 ^ nat (52 - binade \<bar>?x\<bar>)" .
  have "(2::rat) ^ 53 < 2 ^ 1024"
    by (rule power_strict_increasing) simp_all
  with a_lt have big: "\<bar>?x\<bar> < 2 ^ 1024"
    by (rule less_trans)
  from assms(1) have nz: "?x \<noteq> 0"
    by (simp only: of_int_eq_0_iff not_False_eq_True)
  have "round_double ?x = Fin ?x"
    using nz u refl big by (rule round_double_multiple)
  then show ?thesis
    by (simp only: number_of_int_def)
qed

text \<open>
  Whole numbers up to \<open>2 ^ 53\<close> in absolute value are doubles: a quantity in this range
  enters the arithmetic as it is.
\<close>

lemma number_of_int_exact:
  assumes "\<bar>n\<bar> \<le> 2 ^ 53"
  shows "number_of_int n = Fin (of_int n)"
proof (cases "n = 0")
  case True
  then show ?thesis by (simp add: number_of_int_def round_double_def)
next
  case nonzero: False
  show ?thesis
  proof (cases "\<bar>n\<bar> < 2 ^ 53")
    case True
    with nonzero show ?thesis by (rule number_of_int_small)
  next
    case False
    with assms have edge: "\<bar>n\<bar> = 2 ^ 53" by linarith
    have p: "(2::int) ^ 53 = 9007199254740992" by simp
    show ?thesis
    proof (cases "0 \<le> n")
      case True
      with edge p have "n = 9007199254740992" by linarith
      then show ?thesis by (simp only: number_of_int_edge_pos of_int_numeral)
    next
      case False
      with edge p have "n = - 9007199254740992" by linarith
      then show ?thesis by (simp only: number_of_int_edge_neg of_int_numeral of_int_minus)
    qed
  qed
qed

subsection \<open>What a decimal column keeps of a double\<close>

text \<open>
  A rounding moves a number by at most half a spacing, which is at most \<open>2\<^sup>-\<^sup>5\<^sup>3\<close> of the
  number; the text written for a double reads back as that double; so a double that is
  within a quarter of a hundredth of an amount of two decimals is kept as that amount.
\<close>

lemma binade_lt1_nonpos: "x < 1 \<Longrightarrow> binade x \<le> 0"
  using bitlen_nonneg [of "\<lceil>1 / x\<rceil> - 1"] by (simp add: binade_def)

lemma ulp_relative:
  assumes "2 powi (- 1022) \<le> \<bar>x\<bar>"
  shows "ulp x \<le> \<bar>x\<bar> / 2 ^ 52"
proof -
  let ?b = "binade \<bar>x\<bar>"
  have "(0::rat) < 2 powi (- 1022)"
    by simp
  with assms have pos: "0 < \<bar>x\<bar>"
    by linarith
  from binade_bounds [OF pos] have lo: "2 powi ?b \<le> \<bar>x\<bar>" and hi: "\<bar>x\<bar> < 2 powi (?b + 1)"
    by simp_all
  have b: "- 1022 \<le> ?b"
  proof (rule ccontr)
    assume "\<not> - 1022 \<le> ?b"
    then have "?b + 1 \<le> - 1022" by simp
    then have "(2::rat) powi (?b + 1) \<le> 2 powi (- 1022)"
      by (rule power_int_increasing) simp
    with hi assms show False by linarith
  qed
  then have "max (?b - 52) (- 1074) = ?b - 52"
    by simp
  then have "ulp x = 2 powi (?b - 52)"
    by (simp only: ulp_def)
  also have "\<dots> = 2 powi ?b / 2 powi 52"
    by (rule power_int_diff) simp
  also have "\<dots> = 2 powi ?b / 2 ^ 52"
    by simp
  also have "\<dots> \<le> \<bar>x\<bar> / 2 ^ 52"
    using lo by (simp add: divide_right_mono)
  finally show ?thesis .
qed

lemma tiny_le_one: "(2::rat) powi (- 1022) \<le> 1"
proof -
  have "(2::rat) powi (- 1022) \<le> 2 powi 0"
    by (rule power_int_increasing) simp_all
  then show ?thesis by simp
qed

lemma ulp_absolute:
  assumes "1 \<le> B" and "\<bar>x\<bar> \<le> B"
  shows "ulp x \<le> B / 2 ^ 52"
proof (cases "1 \<le> \<bar>x\<bar>")
  case True
  with tiny_le_one have "2 powi (- 1022) \<le> \<bar>x\<bar>"
    by linarith
  then have "ulp x \<le> \<bar>x\<bar> / 2 ^ 52"
    by (rule ulp_relative)
  also have "\<dots> \<le> B / 2 ^ 52"
    using assms(2) by (simp add: divide_right_mono)
  finally show ?thesis .
next
  case False
  then have "binade \<bar>x\<bar> \<le> 0"
    by (simp add: binade_lt1_nonpos)
  then have "max (binade \<bar>x\<bar> - 52) (- 1074) \<le> - 52"
    by simp
  then have "(2::rat) powi (max (binade \<bar>x\<bar> - 52) (- 1074)) \<le> 2 powi (- 52)"
    by (rule power_int_increasing) simp
  then have "ulp x \<le> 2 powi (- 52)"
    by (simp only: ulp_def)
  also have "(2::rat) powi (- 52) = 1 / 2 ^ 52"
    by (simp add: power_int_minus inverse_eq_divide)
  also have "\<dots> \<le> B / 2 ^ 52"
    using assms(1) by (simp add: divide_right_mono)
  finally show ?thesis .
qed

lemma round_multiple_near:
  "\<bar>of_int (round_half_even (x / ulp x)) * ulp x - x\<bar> \<le> ulp x / 2"
proof -
  let ?m = "round_half_even (x / ulp x)"
  have "\<bar>of_int ?m - x / ulp x\<bar> \<le> 1 / 2"
    by (rule round_half_even_near)
  then have "\<bar>of_int ?m - x / ulp x\<bar> * ulp x \<le> 1 / 2 * ulp x"
    using ulp_positive [of x] by (simp only: mult_le_cancel_right_pos)
  moreover have "\<bar>of_int ?m - x / ulp x\<bar> * ulp x = \<bar>of_int ?m * ulp x - x\<bar>"
  proof -
    have "\<bar>of_int ?m - x / ulp x\<bar> * ulp x = \<bar>(of_int ?m - x / ulp x) * ulp x\<bar>"
      using ulp_positive [of x] by (simp add: abs_mult)
    also have "(of_int ?m - x / ulp x) * ulp x = of_int ?m * ulp x - x"
      using ulp_positive [of x] by (simp add: field_simps)
    finally show ?thesis .
  qed
  ultimately show ?thesis
    by simp
qed

lemma round_double_finite:
  assumes "\<bar>x\<bar> \<le> 2 ^ 1000"
  shows "\<exists>y. round_double x = Fin y \<and> \<bar>y - x\<bar> \<le> ulp x / 2"
proof (cases "x = 0")
  case True
  then show ?thesis
    using ulp_positive [of 0] by (simp add: round_double_def)
next
  case False
  let ?y = "of_int (round_half_even (x / ulp x)) * ulp x"
  have near: "\<bar>?y - x\<bar> \<le> ulp x / 2"
    by (rule round_multiple_near)
  have one: "(1::rat) \<le> 2 ^ 1000"
    by (rule one_le_power) simp
  from ulp_absolute [OF one assms] have "ulp x \<le> 2 ^ 1000 / 2 ^ 52" .
  also have "\<dots> \<le> (2::rat) ^ 1000"
    by (simp add: field_simps)
  finally have u: "ulp x \<le> 2 ^ 1000" .
  have "\<bar>?y\<bar> \<le> \<bar>x\<bar> + \<bar>?y - x\<bar>"
    by linarith
  with near u assms have "\<bar>?y\<bar> \<le> 2 ^ 1000 + 2 ^ 1000 / 2"
    by linarith
  also have "\<dots> < (2::rat) ^ 1024"
    by simp
  finally have "\<not> 2 ^ 1024 \<le> \<bar>?y\<bar>"
    by simp
  with False have "round_double x = Fin ?y"
    by (simp add: round_double_def Let_def)
  with near show ?thesis by blast
qed

lemma round_double_absolute:
  assumes "1 \<le> B" and "\<bar>x\<bar> \<le> B" and "B \<le> 2 ^ 1000"
  shows "\<exists>y. round_double x = Fin y \<and> \<bar>y - x\<bar> \<le> B / 2 ^ 53"
proof -
  from assms(2,3) have "\<bar>x\<bar> \<le> 2 ^ 1000" by linarith
  from round_double_finite [OF this] obtain y
    where y: "round_double x = Fin y" "\<bar>y - x\<bar> \<le> ulp x / 2" by blast
  from ulp_absolute [OF assms(1,2)] have "ulp x / 2 \<le> B / 2 ^ 52 / 2"
    by simp
  also have "\<dots> = B / 2 ^ 53"
    by simp
  finally have "ulp x / 2 \<le> B / 2 ^ 53" .
  with y show ?thesis by (meson order_trans)
qed

lemma round_double_relative:
  assumes "2 powi (- 1022) \<le> \<bar>x\<bar>" and "\<bar>x\<bar> \<le> 2 ^ 1000"
  shows "\<exists>y. round_double x = Fin y \<and> \<bar>y - x\<bar> \<le> \<bar>x\<bar> / 2 ^ 53"
proof -
  from round_double_finite [OF assms(2)] obtain y
    where y: "round_double x = Fin y" "\<bar>y - x\<bar> \<le> ulp x / 2" by blast
  from ulp_relative [OF assms(1)] have "ulp x / 2 \<le> \<bar>x\<bar> / 2 ^ 52 / 2"
    by simp
  also have "\<dots> = \<bar>x\<bar> / 2 ^ 53"
    by simp
  finally have "ulp x / 2 \<le> \<bar>x\<bar> / 2 ^ 53" .
  with y show ?thesis by (meson order_trans)
qed

lemma round_half_away_near:
  assumes "\<bar>z - of_int c\<bar> < 1 / 2"
  shows "round_half_away z = c"
proof (cases "0 \<le> z")
  case True
  have "\<lfloor>z + 1 / 2\<rfloor> = c"
    by (rule floor_unique) (use assms in linarith)+
  with True show ?thesis by (simp add: round_half_away_def)
next
  case False
  have "\<lfloor>- z + 1 / 2\<rfloor> = - c"
    by (rule floor_unique) (use assms in \<open>simp, linarith\<close>)+
  with False show ?thesis by (simp add: round_half_away_def)
qed

lemma digits_near_reads_back: "d \<in> set (digits_near a k) \<Longrightarrow> round_double d = Fin a"
  by (simp add: digits_near_def Let_def split: if_splits)

lemma json_text_reads_back: "json_text a = a \<or> round_double (json_text a) = Fin a"
proof (cases "a = 0")
  case True
  then show ?thesis by (simp add: json_text_def)
next
  case False
  show ?thesis
  proof (cases "find (\<lambda>k. digits_near a k \<noteq> []) [1 ..< 18]")
    case None
    with False show ?thesis by (simp add: json_text_def)
  next
    case (Some k)
    then have "digits_near a k \<noteq> []"
      by (auto simp: find_Some_iff)
    then have "hd (digits_near a k) \<in> set (digits_near a k)"
      by (rule hd_in_set)
    then have "round_double (hd (digits_near a k)) = Fin a"
      by (rule digits_near_reads_back)
    with False Some show ?thesis by (simp add: json_text_def)
  qed
qed

lemma json_text_near:
  assumes "1 \<le> B" and "\<bar>a\<bar> \<le> B"
  shows "\<bar>json_text a - a\<bar> \<le> B / 2 ^ 52"
proof -
  let ?d = "json_text a"
  from json_text_reads_back [of a] show ?thesis
  proof
    assume "?d = a"
    with assms(1) show ?thesis by simp
  next
    assume reads: "round_double ?d = Fin a"
    from round_double_near [OF reads] have near: "\<bar>a - ?d\<bar> \<le> ulp ?d / 2"
      by simp
    have bound: "\<bar>?d\<bar> \<le> 2 * B"
    proof (rule ccontr)
      assume "\<not> \<bar>?d\<bar> \<le> 2 * B"
      then have big: "2 * B < \<bar>?d\<bar>" by simp
      with assms(1) tiny_le_one have "2 powi (- 1022) \<le> \<bar>?d\<bar>"
        by linarith
      then have "ulp ?d \<le> \<bar>?d\<bar> / 2 ^ 52"
        by (rule ulp_relative)
      also have "\<dots> \<le> \<bar>?d\<bar>"
        by (simp add: field_simps)
      finally have "ulp ?d / 2 \<le> \<bar>?d\<bar> / 2"
        by simp
      with near have "\<bar>?d\<bar> / 2 \<le> \<bar>a\<bar>"
        by linarith
      with big assms(2) show False by linarith
    qed
    from assms(1) have "1 \<le> 2 * B" by simp
    from ulp_absolute [OF this bound] have "ulp ?d / 2 \<le> 2 * B / 2 ^ 52 / 2"
      by simp
    also have "\<dots> = B / 2 ^ 52"
      by simp
    finally have "ulp ?d / 2 \<le> B / 2 ^ 52" .
    with near show ?thesis by linarith
  qed
qed

lemma numeric_10_2_near:
  assumes "\<bar>a - of_int c / 100\<bar> \<le> 1 / 400" and "\<bar>c\<bar> < 10 ^ 10"
  shows "numeric_10_2 (Fin a) = Some (decimal c 2)"
proof -
  from assms(2) have "of_int \<bar>c\<bar> < (of_int (10 ^ 10) :: rat)"
    by (simp only: of_int_less_iff)
  then have c: "\<bar>of_int c :: rat\<bar> < 10 ^ 10"
    by simp
  have "\<bar>a\<bar> \<le> \<bar>of_int c / 100\<bar> + \<bar>a - of_int c / 100\<bar>"
    by linarith
  with assms(1) c have a: "\<bar>a\<bar> \<le> 2 ^ 27"
    by simp
  have "(1::rat) \<le> 2 ^ 27" by simp
  from json_text_near [OF this a] have "\<bar>json_text a - a\<bar> \<le> 2 ^ 27 / 2 ^ 52" .
  also have "\<dots> < (1::rat) / 400"
    by simp
  finally have "\<bar>json_text a - of_int c / 100\<bar> < 1 / 200"
    using assms(1) by linarith
  then have "\<bar>json_text a * 100 - of_int c\<bar> < 1 / 2"
    by linarith
  then have "round_half_away (json_text a * 100) = c"
    by (rule round_half_away_near)
  with assms(2) show ?thesis
    by (simp add: numeric_10_2_def)
qed

lemma tiny_le_hundredth: "(2::rat) powi (- 1022) \<le> 1 / 100"
proof -
  have "(2::rat) powi (- 1022) \<le> 2 powi (- 7)"
    by (rule power_int_increasing) simp_all
  also have "\<dots> \<le> (1::rat) / 100"
    by (simp add: power_int_minus)
  finally show ?thesis .
qed

lemma rat_of_cents:
  assumes "\<bar>n\<bar> < 10 ^ 10"
  shows "\<bar>of_int n :: rat\<bar> < 10 ^ 10"
proof -
  from assms have "of_int \<bar>n\<bar> < (of_int (10 ^ 10) :: rat)"
    by (simp only: of_int_less_iff)
  then show ?thesis by simp
qed

lemma decimal_near:
  assumes "\<bar>n\<bar> < 10 ^ 10"
  shows "\<exists>P. decimal n 2 = Fin P \<and> \<bar>P - of_int n / 100\<bar> \<le> \<bar>of_int n\<bar> / 100 / 2 ^ 53"
proof (cases "n = 0")
  case True
  then show ?thesis by (simp add: decimal_def round_double_def)
next
  case False
  let ?x = "of_int n / 100 :: rat"
  from False have "1 \<le> \<bar>n\<bar>" by linarith
  then have "(of_int 1 :: rat) \<le> of_int \<bar>n\<bar>"
    by (simp only: of_int_le_iff)
  then have "1 / 100 \<le> \<bar>?x\<bar>"
    by simp
  with tiny_le_hundredth have lo: "2 powi (- 1022) \<le> \<bar>?x\<bar>"
    by linarith
  from rat_of_cents [OF assms] have "\<bar>?x\<bar> \<le> 10 ^ 8"
    by simp
  also have "(10::rat) ^ 8 \<le> 2 ^ 27"
    by simp
  also have "(2::rat) ^ 27 \<le> 2 ^ 1000"
    by (rule power_increasing) simp_all
  finally have hi: "\<bar>?x\<bar> \<le> 2 ^ 1000" .
  from round_double_relative [OF lo hi] obtain y
    where "round_double ?x = Fin y" "\<bar>y - ?x\<bar> \<le> \<bar>?x\<bar> / 2 ^ 53" by blast
  then show ?thesis
    by (simp add: decimal_def)
qed

lemma decimal_close:
  assumes "\<bar>n\<bar> < 10 ^ 10"
  shows "\<exists>P. decimal n 2 = Fin P \<and> \<bar>P - of_int n / 100\<bar> \<le> 1 / 2 ^ 26"
proof -
  from decimal_near [OF assms] obtain P
    where P: "decimal n 2 = Fin P" "\<bar>P - of_int n / 100\<bar> \<le> \<bar>of_int n\<bar> / 100 / 2 ^ 53" by blast
  from rat_of_cents [OF assms] have "\<bar>of_int n :: rat\<bar> / 100 / 2 ^ 53 \<le> 10 ^ 8 / 2 ^ 53"
    by simp
  also have "\<dots> \<le> (1::rat) / 2 ^ 26"
    by simp
  finally have "\<bar>of_int n :: rat\<bar> / 100 / 2 ^ 53 \<le> 1 / 2 ^ 26" .
  with P show ?thesis by (meson order_trans)
qed

lemma cents_of_decimal:
  assumes "\<bar>n\<bar> < 10 ^ 10"
  shows "cents_of (decimal n 2) = Some n"
proof -
  from decimal_close [OF assms] obtain P
    where P: "decimal n 2 = Fin P" "\<bar>P - of_int n / 100\<bar> \<le> 1 / 2 ^ 26" by blast
  have "(1::rat) / 2 ^ 26 < 1 / 200"
    by simp
  with P(2) have "\<bar>P * 100 - of_int n\<bar> < 1 / 2"
    by linarith
  then have "round_half_away (P * 100) = n"
    by (rule round_half_away_near)
  with P(1) show ?thesis
    by (simp add: cents_of_def)
qed

lemma numeric_10_2_decimal:
  assumes "\<bar>n\<bar> < 10 ^ 10"
  shows "numeric_10_2 (decimal n 2) = Some (decimal n 2)"
proof -
  from decimal_close [OF assms] obtain P
    where P: "decimal n 2 = Fin P" "\<bar>P - of_int n / 100\<bar> \<le> 1 / 2 ^ 26" by blast
  have "(1::rat) / 2 ^ 26 \<le> 1 / 400"
    by simp
  with P(2) have "\<bar>P - of_int n / 100\<bar> \<le> 1 / 400"
    by linarith
  from numeric_10_2_near [OF this assms] P(1) show ?thesis
    by simp
qed

lemma line_near:
  assumes "0 \<le> n" and "0 \<le> q" and "q < 2 ^ 31" and "n * q < 10 ^ 10" and "n < 10 ^ 10"
  shows "\<exists>S. js_mul (decimal n 2) (number_of_int q) = Fin S
             \<and> \<bar>S - of_int (n * q) / 100\<bar> \<le> 1 / 2 ^ 25"
proof -
  from assms(1,5) have "\<bar>n\<bar> < 10 ^ 10" by simp
  from decimal_near [OF this] obtain P
    where P: "decimal n 2 = Fin P" "\<bar>P - of_int n / 100\<bar> \<le> \<bar>of_int n\<bar> / 100 / 2 ^ 53" by blast
  have "(2::int) ^ 31 \<le> 2 ^ 53"
    by simp
  with assms(2,3) have "\<bar>q\<bar> \<le> 2 ^ 53"
    by linarith
  then have q: "number_of_int q = Fin (of_int q)"
    by (rule number_of_int_exact)
  let ?q = "of_int q :: rat"
  let ?s = "of_int (n * q) / 100 :: rat"
  from assms(2) have q0: "0 \<le> ?q" by simp
  have "P * ?q - ?s = (P - of_int n / 100) * ?q"
    by (simp add: algebra_simps)
  then have "\<bar>P * ?q - ?s\<bar> = \<bar>P - of_int n / 100\<bar> * ?q"
    using q0 by (simp add: abs_mult)
  also have "\<dots> \<le> \<bar>of_int n\<bar> / 100 / 2 ^ 53 * ?q"
    using P(2) q0 by (rule mult_right_mono)
  also have "\<dots> = ?s / 2 ^ 53"
    using assms(1) by simp
  finally have e1: "\<bar>P * ?q - ?s\<bar> \<le> ?s / 2 ^ 53" .
  from assms(1,2) have "0 \<le> n * q" by simp
  with assms(4) have "\<bar>n * q\<bar> < 10 ^ 10" by simp
  from rat_of_cents [OF this] assms(1,2) have s: "0 \<le> ?s" "?s \<le> 10 ^ 8"
    by simp_all
  from s(2) have "?s / 2 ^ 53 \<le> 10 ^ 8 / 2 ^ 53"
    by (simp add: divide_right_mono)
  also have "\<dots> \<le> (1::rat) / 2 ^ 26"
    by simp
  finally have e2: "?s / 2 ^ 53 \<le> 1 / 2 ^ 26" .
  have small: "(1::rat) / 2 ^ 26 \<le> 1" "(10::rat) ^ 8 + 1 \<le> 2 ^ 27"
    by simp_all
  have "\<bar>P * ?q\<bar> \<le> \<bar>?s\<bar> + \<bar>P * ?q - ?s\<bar>"
    by linarith
  with e1 e2 s small have b: "\<bar>P * ?q\<bar> \<le> 2 ^ 27"
    by linarith
  have "(1::rat) \<le> 2 ^ 27" by simp
  moreover note b
  moreover have "(2::rat) ^ 27 \<le> 2 ^ 1000"
    by (rule power_increasing) simp_all
  ultimately obtain S where S: "round_double (P * ?q) = Fin S" "\<bar>S - P * ?q\<bar> \<le> 2 ^ 27 / 2 ^ 53"
    using round_double_absolute by blast
  have "(2::rat) ^ 27 / 2 ^ 53 = 1 / 2 ^ 26"
    by simp
  with S(2) have e3: "\<bar>S - P * ?q\<bar> \<le> 1 / 2 ^ 26"
    by simp
  have "(1::rat) / 2 ^ 26 + 1 / 2 ^ 26 = 1 / 2 ^ 25"
    by simp
  with e1 e2 e3 have "\<bar>S - ?s\<bar> \<le> 1 / 2 ^ 25"
    by linarith
  moreover have "js_mul (decimal n 2) (number_of_int q) = Fin S"
    by (simp add: P(1) q js_mul_Fin S(1))
  ultimately show ?thesis by blast
qed

lemma exact_cents_nonneg:
  assumes "list_all2 (\<lambda>n item. 0 \<le> n \<and> 0 \<le> i_quantity item) cents cart"
  shows "0 \<le> sum_list (map2 (\<lambda>n item. n * i_quantity item) cents cart)"
  using assms by (induction rule: list_all2_induct) simp_all

lemma total_from:
  assumes "list_all2 (\<lambda>n item. p_price (i_product item) = decimal n 2 \<and> 0 \<le> n
                          \<and> 1 \<le> i_quantity item \<and> i_quantity item < 2 ^ 31) cents cart"
    and "0 \<le> c"
    and "c + sum_list (map2 (\<lambda>n item. n * i_quantity item) cents cart) < 10 ^ 10"
    and "\<bar>t - of_int c / 100\<bar> \<le> of_nat k / 2 ^ 24"
    and "k + length cart \<le> 10000"
  shows "\<exists>T. foldl (\<lambda>total item. js_add total (js_mul (p_price (i_product item))
                                                   (number_of_int (i_quantity item))))
                (Fin t) cart = Fin T
             \<and> \<bar>T - of_int (c + sum_list (map2 (\<lambda>n item. n * i_quantity item) cents cart)) / 100\<bar>
                 \<le> of_nat (k + length cart) / 2 ^ 24"
  using assms
proof (induction arbitrary: c t k rule: list_all2_induct)
  case Nil
  then show ?case by simp
next
  case (Cons n cents item cart)
  let ?q = "i_quantity item"
  let ?rest = "sum_list (map2 (\<lambda>n item. n * i_quantity item) cents cart)"
  from Cons.hyps(1) have price: "p_price (i_product item) = decimal n 2"
    and n0: "0 \<le> n" and q1: "1 \<le> ?q" and q31: "?q < 2 ^ 31"
    by simp_all
  have "list_all2 (\<lambda>n item. 0 \<le> n \<and> 0 \<le> i_quantity item) cents cart"
    by (rule list_all2_mono [OF Cons.hyps(2)]) simp
  then have rest0: "0 \<le> ?rest"
    by (rule exact_cents_nonneg)
  from Cons.prems(2) have total: "c + n * ?q + ?rest < 10 ^ 10"
    by (simp add: algebra_simps)
  from n0 q1 have nq0: "0 \<le> n * ?q"
    by simp
  from n0 q1 have "n * 1 \<le> n * ?q"
    by (rule mult_left_mono [rotated])
  then have n_le: "n \<le> n * ?q"
    by simp
  from total rest0 Cons.prems(1) have nq: "n * ?q < 10 ^ 10"
    by linarith
  with n_le have n10: "n < 10 ^ 10"
    by linarith
  from q1 have q0: "0 \<le> ?q" by simp
  from line_near [OF n0 q0 q31 nq n10] obtain S
    where S: "js_mul (decimal n 2) (number_of_int ?q) = Fin S"
      "\<bar>S - of_int (n * ?q) / 100\<bar> \<le> 1 / 2 ^ 25"
    by blast
  let ?c' = "c + n * ?q"
  have c'0: "0 \<le> ?c'"
    using Cons.prems(1) nq0 by simp
  from total rest0 have c'10: "?c' < 10 ^ 10"
    by linarith
  with c'0 have "\<bar>?c'\<bar> < 10 ^ 10"
    by simp
  from rat_of_cents [OF this] have c'r: "\<bar>(of_int ?c' :: rat) / 100\<bar> \<le> 10 ^ 8"
    by simp
  from Cons.prems(4) have k: "k \<le> 10000"
    by simp
  then have "(of_nat k :: rat) \<le> of_nat 10000"
    by (simp only: of_nat_le_iff)
  then have "(of_nat k :: rat) / 2 ^ 24 \<le> 10000 / 2 ^ 24"
    by (simp add: divide_right_mono)
  also have "\<dots> \<le> (1::rat) / 2"
    by simp
  finally have kb: "(of_nat k :: rat) / 2 ^ 24 \<le> 1 / 2" .
  have split: "(of_int ?c' :: rat) / 100 = of_int c / 100 + of_int (n * ?q) / 100"
    by (simp add: add_divide_distrib)
  have e1: "\<bar>t + S - of_int ?c' / 100\<bar> \<le> of_nat k / 2 ^ 24 + 1 / 2 ^ 25"
    using Cons.prems(3) S(2) unfolding split by linarith
  have small: "(1::rat) / 2 ^ 25 \<le> 1 / 2" "(10::rat) ^ 8 + 1 \<le> 2 ^ 27"
    by simp_all
  have "\<bar>t + S\<bar> \<le> \<bar>(of_int ?c' :: rat) / 100\<bar> + \<bar>t + S - of_int ?c' / 100\<bar>"
    by linarith
  with e1 kb small c'r have b: "\<bar>t + S\<bar> \<le> 2 ^ 27"
    by linarith
  have "(1::rat) \<le> 2 ^ 27" by simp
  moreover note b
  moreover have "(2::rat) ^ 27 \<le> 2 ^ 1000"
    by (rule power_increasing) simp_all
  ultimately obtain t' where t': "round_double (t + S) = Fin t'" "\<bar>t' - (t + S)\<bar> \<le> 2 ^ 27 / 2 ^ 53"
    using round_double_absolute by blast
  have "(2::rat) ^ 27 / 2 ^ 53 = 1 / 2 ^ 26"
    by simp
  with t'(2) have e2: "\<bar>t' - (t + S)\<bar> \<le> 1 / 2 ^ 26"
    by simp
  have "(1::rat) / 2 ^ 25 + 1 / 2 ^ 26 \<le> 1 / 2 ^ 24"
    by simp
  with e1 e2 have "\<bar>t' - of_int ?c' / 100\<bar> \<le> of_nat k / 2 ^ 24 + 1 / 2 ^ 24"
    by linarith
  also have "(of_nat k :: rat) / 2 ^ 24 + 1 / 2 ^ 24 = of_nat (Suc k) / 2 ^ 24"
    by (simp add: add_divide_distrib)
  finally have e3: "\<bar>t' - of_int ?c' / 100\<bar> \<le> of_nat (Suc k) / 2 ^ 24" .
  have total': "?c' + ?rest < 10 ^ 10"
    by (rule total)
  from Cons.prems(4) have len: "Suc k + length cart \<le> 10000"
    by simp
  from Cons.IH [OF c'0 total' e3 len] obtain T
    where T: "foldl (\<lambda>total item. js_add total (js_mul (p_price (i_product item))
                                                   (number_of_int (i_quantity item))))
                (Fin t') cart = Fin T"
      "\<bar>T - of_int (?c' + ?rest) / 100\<bar> \<le> of_nat (Suc k + length cart) / 2 ^ 24"
    by blast
  have step: "js_add (Fin t) (js_mul (p_price (i_product item)) (number_of_int ?q)) = Fin t'"
    by (simp add: price S(1) js_add_Fin t'(1))
  have "foldl (\<lambda>total item. js_add total (js_mul (p_price (i_product item))
                                                   (number_of_int (i_quantity item))))
                (Fin t) (item # cart) = Fin T"
    by (simp only: foldl_Cons step T(1))
  moreover have "c + sum_list (map2 (\<lambda>n item. n * i_quantity item) (n # cents) (item # cart))
                  = ?c' + ?rest"
    by simp
  moreover have "k + length (item # cart) = Suc k + length cart"
    by simp
  ultimately show ?case
    using T(2) by (simp only:) blast
qed

lemma getTotalAmount_near:
  assumes "list_all2 (\<lambda>n item. p_price (i_product item) = decimal n 2 \<and> 0 \<le> n
                          \<and> 1 \<le> i_quantity item \<and> i_quantity item < 2 ^ 31) cents cart"
    and "sum_list (map2 (\<lambda>n item. n * i_quantity item) cents cart) < 10 ^ 10"
    and "length cart \<le> 10000"
  shows "\<exists>T. getTotalAmount cart = Fin T
             \<and> \<bar>T - of_int (sum_list (map2 (\<lambda>n item. n * i_quantity item) cents cart)) / 100\<bar>
                 \<le> 1 / 400"
proof -
  let ?sum = "sum_list (map2 (\<lambda>n item. n * i_quantity item) cents cart)"
  have a: "(0::int) \<le> 0" by simp
  have b: "0 + ?sum < 10 ^ 10"
    using assms(2) by simp
  have c: "\<bar>(0::rat) - of_int 0 / 100\<bar> \<le> of_nat 0 / 2 ^ 24"
    by simp
  have d: "0 + length cart \<le> 10000"
    using assms(3) by simp
  from total_from [OF assms(1) a b c d] obtain T
    where T: "getTotalAmount cart = Fin T"
      "\<bar>T - of_int (0 + ?sum) / 100\<bar> \<le> of_nat (0 + length cart) / 2 ^ 24"
    unfolding getTotalAmount_def by blast
  from assms(3) have "(of_nat (length cart) :: rat) \<le> of_nat 10000"
    by (simp only: of_nat_le_iff)
  then have "(of_nat (length cart) :: rat) / 2 ^ 24 \<le> 10000 / 2 ^ 24"
    by (simp add: divide_right_mono)
  also have "\<dots> \<le> (1::rat) / 400"
    by simp
  finally have "(of_nat (length cart) :: rat) / 2 ^ 24 \<le> 1 / 400" .
  with T(2) have "\<bar>T - of_int ?sum / 100\<bar> \<le> 1 / 400"
    by simp
  with T(1) show ?thesis by blast
qed

section \<open>Order submission: properties\<close>

lemma handleSubmitOrder_empty:
  "fst (handleSubmitOrder reply f s) = Inl EmptyOrder \<longleftrightarrow> orderItems f = []"
  by (simp add: handleSubmitOrder_def Let_def split: option.splits)

lemma order_type_not_dine_in: "t \<noteq> dine_in \<longleftrightarrow> t = delivery"
  by (cases t) simp_all

lemma handleSubmitOrder_table:
  "fst (handleSubmitOrder reply f s) = Inl MissingTableNumber
     \<longleftrightarrow> orderItems f \<noteq> [] \<and> orderType f = dine_in \<and> tableNumber f = []"
  by (cases "orderType f") (simp_all add: handleSubmitOrder_def Let_def split: option.splits)

lemma handleSubmitOrder_delivery:
  "fst (handleSubmitOrder reply f s) = Inl MissingDeliveryInfo
     \<longleftrightarrow> orderItems f \<noteq> [] \<and> orderType f = delivery
         \<and> (customerName f = [] \<or> customerAddress f = [] \<or> customerLocation f = [])"
  by (cases "orderType f") (simp_all add: handleSubmitOrder_def Let_def split: option.splits)

lemma handleSubmitOrder_invalid_store:
  assumes "fst (handleSubmitOrder reply f s) \<in> {Inl EmptyOrder, Inl MissingTableNumber, Inl MissingDeliveryInfo}"
  shows "snd (handleSubmitOrder reply f s) = s"
proof (cases "orderItems f = []")
  case True
  then show ?thesis by (simp add: handleSubmitOrder_def)
next
  case nonempty: False
  show ?thesis
  proof (cases "orderType f = dine_in \<and> tableNumber f = []")
    case True
    with nonempty show ?thesis by (simp add: handleSubmitOrder_def)
  next
    case table_ok: False
    show ?thesis
    proof (cases "orderType f = delivery
              \<and> (customerName f = [] \<or> customerAddress f = [] \<or> customerLocation f = [])")
      case True
      with nonempty table_ok show ?thesis by (simp add: handleSubmitOrder_def)
    next
      case False
      with nonempty table_ok assms show ?thesis
        by (simp add: handleSubmitOrder_def Let_def split: if_splits option.splits)
    qed
  qed
qed

text \<open>
  C3, as amended. The checks run in this order and the first failure wins: an empty cart
  fails with \<open>EmptyOrder\<close>; otherwise a dine-in order whose table number is the empty string
  fails with \<open>MissingTableNumber\<close>; otherwise a delivery order with an empty customer name,
  address or location fails with \<open>MissingDeliveryInfo\<close>. Each of the three failures happens
  in exactly these cases (whether a table number that is present parses as an integer is
  not looked at), and then the store is left as it was.
\<close>

theorem handleSubmitOrder_validation:
  "(fst (handleSubmitOrder reply f s) = Inl EmptyOrder \<longleftrightarrow> orderItems f = [])
   \<and> (fst (handleSubmitOrder reply f s) = Inl MissingTableNumber
        \<longleftrightarrow> orderItems f \<noteq> [] \<and> orderType f = dine_in \<and> tableNumber f = [])
   \<and> (fst (handleSubmitOrder reply f s) = Inl MissingDeliveryInfo
        \<longleftrightarrow> orderItems f \<noteq> [] \<and> orderType f = delivery
            \<and> (customerName f = [] \<or> customerAddress f = [] \<or> customerLocation f = []))
   \<and> (fst (handleSubmitOrder reply f s) \<in> {Inl EmptyOrder, Inl MissingTableNumber, Inl MissingDeliveryInfo}
        \<longrightarrow> snd (handleSubmitOrder reply f s) = s)"
  using handleSubmitOrder_empty [of reply f s] handleSubmitOrder_table [of reply f s]
    handleSubmitOrder_delivery [of reply f s] handleSubmitOrder_invalid_store [of reply f s]
  by blast

lemma parseInt_abc: "parseInt ''abc'' = NaN"
  by (simp add: parseInt_def is_white_space_def digit_value_def Let_def)

lemma parseInt_dot5: "parseInt ''.5'' = NaN"
  by (simp add: parseInt_def is_white_space_def digit_value_def Let_def)

lemma parseInt_5: "parseInt ''5'' = Fin 5"
  by (simp add: parseInt_def is_white_space_def digit_value_def Let_def double_eval)

text \<open>
  The end-to-end scenario of the specification, for any table number that is not empty:
  the rows the two tables keep.
\<close>

lemma e2e_total: "getTotalAmount (orderItems form1) = decimal 2897 2"
  by (simp add: getTotalAmount_def form1_def margherita_def soda_def number_of_int_1 number_of_int_2
      decimal_299 decimal_1299 decimal_2897 js_mul_Fin js_add_Fin round_eval)

lemma e2e_payload:
  "orderItemsData (form1\<lparr>tableNumber := t\<rparr>) ''o2''
     = [\<lparr>oi_order_id = ''o2'', oi_product_id = ''p1'', oi_quantity = 2,
          oi_unit_price = decimal 1299 2, oi_subtotal = decimal 2598 2\<rparr>,
        \<lparr>oi_order_id = ''o2'', oi_product_id = ''p2'', oi_quantity = 1,
          oi_unit_price = decimal 299 2, oi_subtotal = decimal 299 2\<rparr>]"
  by (simp add: orderItemsData_def form1_def margherita_def soda_def number_of_int_1 number_of_int_2
      decimal_299 decimal_1299 decimal_2598 js_mul_Fin round_eval)

lemma e2e_kept:
  "numeric_10_2 (decimal 1299 2) = Some (decimal 1299 2)"
  "numeric_10_2 (decimal 2598 2) = Some (decimal 2598 2)"
  "numeric_10_2 (decimal 299 2) = Some (decimal 299 2)"
  "numeric_10_2 (decimal 2897 2) = Some (decimal 2897 2)"
  by (rule numeric_10_2_decimal, simp)+

lemma e2e_items:
  "stored_items (orderItemsData (form1\<lparr>tableNumber := t\<rparr>) ''o2'')
     = Some [\<lparr>oi_order_id = ''o2'', oi_product_id = ''p1'', oi_quantity = 2,
               oi_unit_price = decimal 1299 2, oi_subtotal = decimal 2598 2\<rparr>,
             \<lparr>oi_order_id = ''o2'', oi_product_id = ''p2'', oi_quantity = 1,
               oi_unit_price = decimal 299 2, oi_subtotal = decimal 299 2\<rparr>]"
  by (simp only: e2e_payload) (simp add: stored_items_def stored_item_def integer_column_def e2e_kept)

lemma e2e_order:
  assumes "integer_or_null (Some (parseInt t)) = Some n"
  shows "stored_order (orderData (form1\<lparr>tableNumber := t\<rparr>) reply1)
     = Some \<lparr>o_id = ''o2'', o_employee_id = Some ''e1'', o_order_type = dine_in,
              o_table_number = n, o_customer_name = None, o_customer_address = None,
              o_customer_location = None, o_total_amount = decimal 2897 2, o_status = ''pending'',
              o_created_at = time_stamp 20000 12 0 0\<rparr>"
proof -
  have cart: "orderItems (form1\<lparr>tableNumber := t\<rparr>) = orderItems form1"
    by simp
  have fields: "orderType form1 = dine_in" "profile_id form1 = Some ''e1''"
    "new_order_id reply1 = ''o2''" "new_created_at reply1 = time_stamp 20000 12 0 0"
    by (simp_all add: form1_def reply1_def)
  show ?thesis
    by (simp add: stored_order_def orderData_def cart e2e_total e2e_kept fields assms)
qed

lemma e2e_submit:
  assumes "t \<noteq> []" and "integer_or_null (Some (parseInt t)) = Some n"
  shows "handleSubmitOrder reply1 (form1\<lparr>tableNumber := t\<rparr>) empty_store
     = (Inr ''o2'',
        empty_store
          \<lparr>orders_table :=
             [\<lparr>o_id = ''o2'', o_employee_id = Some ''e1'', o_order_type = dine_in,
               o_table_number = n, o_customer_name = None, o_customer_address = None,
               o_customer_location = None, o_total_amount = decimal 2897 2, o_status = ''pending'',
               o_created_at = time_stamp 20000 12 0 0\<rparr>],
           order_items_table :=
             [\<lparr>oi_order_id = ''o2'', oi_product_id = ''p1'', oi_quantity = 2,
               oi_unit_price = decimal 1299 2, oi_subtotal = decimal 2598 2\<rparr>,
              \<lparr>oi_order_id = ''o2'', oi_product_id = ''p2'', oi_quantity = 1,
               oi_unit_price = decimal 299 2, oi_subtotal = decimal 299 2\<rparr>]\<rparr>)"
proof -
  have fields: "orderItems form1 \<noteq> []" "orderType form1 = dine_in"
    "\<not> order_insert_error reply1" "\<not> items_insert_error reply1"
    by (simp_all add: form1_def reply1_def)
  have tables: "orders_table empty_store = []" "order_items_table empty_store = []"
    by (simp_all add: empty_store_def)
  show ?thesis
    by (simp add: handleSubmitOrder_def fields assms(1) e2e_order [OF assms(2)] e2e_items tables)
qed

lemma null_table_number: "integer_or_null (Some NaN) = Some None"
  by (simp add: integer_or_null_def)

text \<open>
  C3 as stated fails: a dine-in order whose table number is \<^verbatim>\<open>abc\<close>, or \<^verbatim>\<open>.5\<close>, which a number
  input lets through, does not parse as an integer and is submitted all the same; the
  order is kept with no table number.
\<close>

theorem unparsed_table_number_accepted:
  "parseInt ''abc'' = NaN
   \<and> fst (handleSubmitOrder reply1 (form1\<lparr>tableNumber := ''abc''\<rparr>) empty_store) = Inr ''o2''
   \<and> map o_table_number (orders_table (snd (handleSubmitOrder reply1 (form1\<lparr>tableNumber := ''abc''\<rparr>) empty_store)))
       = [None]
   \<and> parseInt ''.5'' = NaN
   \<and> fst (handleSubmitOrder reply1 (form1\<lparr>tableNumber := ''.5''\<rparr>) empty_store) = Inr ''o2''"
proof -
  have a: "integer_or_null (Some (parseInt ''abc'')) = Some None"
    by (simp only: parseInt_abc null_table_number)
  have b: "integer_or_null (Some (parseInt ''.5'')) = Some None"
    by (simp only: parseInt_dot5 null_table_number)
  have "''abc'' \<noteq> []" "''.5'' \<noteq> []"
    by simp_all
  then show ?thesis
    by (simp add: parseInt_abc parseInt_dot5 e2e_submit [OF _ a] e2e_submit [OF _ b])
qed

theorem handleSubmitOrder_validation_witness:
  "handleSubmitOrder reply1 (form1\<lparr>orderItems := []\<rparr>) empty_store = (Inl EmptyOrder, empty_store)
   \<and> handleSubmitOrder reply1 (form1\<lparr>tableNumber := []\<rparr>) empty_store = (Inl MissingTableNumber, empty_store)
   \<and> handleSubmitOrder reply1 (form1\<lparr>orderType := delivery, customerName := ''Ann'', customerAddress := ''1 Main St''\<rparr>) empty_store
       = (Inl MissingDeliveryInfo, empty_store)"
proof -
  have a: "fst (handleSubmitOrder reply1 (form1\<lparr>orderItems := []\<rparr>) empty_store) = Inl EmptyOrder"
    by (simp add: handleSubmitOrder_def form1_def)
  have b: "fst (handleSubmitOrder reply1 (form1\<lparr>tableNumber := []\<rparr>) empty_store) = Inl MissingTableNumber"
    by (simp add: handleSubmitOrder_def form1_def)
  have c: "fst (handleSubmitOrder reply1 (form1\<lparr>orderType := delivery, customerName := ''Ann'', customerAddress := ''1 Main St''\<rparr>) empty_store)
       = Inl MissingDeliveryInfo"
    by (simp add: handleSubmitOrder_def form1_def)
  have a': "snd (handleSubmitOrder reply1 (form1\<lparr>orderItems := []\<rparr>) empty_store) = empty_store"
    using handleSubmitOrder_validation [of reply1 "form1\<lparr>orderItems := []\<rparr>" empty_store] a by simp
  have b': "snd (handleSubmitOrder reply1 (form1\<lparr>tableNumber := []\<rparr>) empty_store) = empty_store"
    using handleSubmitOrder_validation [of reply1 "form1\<lparr>tableNumber := []\<rparr>" empty_store] b by simp
  have c': "snd (handleSubmitOrder reply1 (form1\<lparr>orderType := delivery, customerName := ''Ann'', customerAddress := ''1 Main St''\<rparr>) empty_store)
       = empty_store"
    using handleSubmitOrder_validation [of reply1 "form1\<lparr>orderType := delivery, customerName := ''Ann'', customerAddress := ''1 Main St''\<rparr>" empty_store] c
    by simp
  from a a' b b' c c' show ?thesis
    by (simp add: prod_eq_iff)
qed

subsection \<open>The amounts a submission leaves in the store\<close>

lemma stored_order_fields:
  assumes "stored_order r = Some row"
  shows "o_id row = o_id r" and "o_status row = o_status r"
    and "numeric_10_2 (o_total_amount r) = Some (o_total_amount row)"
  using assms by (auto simp: stored_order_def split: option.splits if_splits)

lemma handleSubmitOrder_success:
  assumes "handleSubmitOrder reply f s = (Inr oid, s')"
  shows "\<exists>row items. stored_order (orderData f reply) = Some row
           \<and> stored_items (orderItemsData f oid) = Some items
           \<and> o_id row = oid
           \<and> orders_table s' = orders_table s @ [row]
           \<and> order_items_table s' = order_items_table s @ items"
  using assms by (auto simp: handleSubmitOrder_def Let_def split: if_splits option.splits)

lemma stored_items_Nil: "stored_items [] = Some []"
  by (simp add: stored_items_def)

lemma stored_items_Cons:
  assumes "stored_item x = Some y" and "stored_items xs = Some ys"
  shows "stored_items (x # xs) = Some (y # ys)"
  using assms by (simp add: stored_items_def split: if_splits)

lemma stored_items_quantities:
  assumes "stored_items (orderItemsData f oid) = Some items"
  shows "list_all (\<lambda>item. i_quantity item < 2 ^ 31) (orderItems f)"
proof -
  from assms have "list_all (\<lambda>it. stored_item it \<noteq> None) (orderItemsData f oid)"
    by (simp add: stored_items_def split: if_splits)
  then have "\<forall>item \<in> set (orderItems f). integer_column (i_quantity item) \<noteq> None"
    by (auto simp: orderItemsData_def list_all_iff stored_item_def split: option.splits)
  then show ?thesis
    by (auto simp: list_all_iff integer_column_def split: if_splits)
qed

lemma list_all2_with:
  assumes "list_all2 P xs ys" and "list_all Q ys"
  shows "list_all2 (\<lambda>x y. P x y \<and> Q y) xs ys"
  using assms by (induction rule: list_all2_induct) simp_all

lemma line_bounds:
  assumes "list_all2 (\<lambda>n item. 0 \<le> n \<and> 0 \<le> i_quantity item) cents cart"
    and "sum_list (map2 (\<lambda>n item. n * i_quantity item) cents cart) < 10 ^ 10"
  shows "list_all2 (\<lambda>n item. n * i_quantity item < 10 ^ 10) cents cart"
  using assms
proof (induction rule: list_all2_induct)
  case Nil
  then show ?case by simp
next
  case (Cons n cents item cart)
  from Cons.hyps(2) have rest: "0 \<le> sum_list (map2 (\<lambda>n item. n * i_quantity item) cents cart)"
    by (rule exact_cents_nonneg)
  from Cons.hyps(1) have line: "0 \<le> n * i_quantity item"
    by simp
  from Cons.prems have "n * i_quantity item + sum_list (map2 (\<lambda>n item. n * i_quantity item) cents cart) < 10 ^ 10"
    by simp
  with rest line have "n * i_quantity item < 10 ^ 10"
    and "sum_list (map2 (\<lambda>n item. n * i_quantity item) cents cart) < 10 ^ 10"
    by linarith+
  with Cons.IH show ?case by simp
qed

lemma line_cents:
  fixes n q :: int
  assumes "0 \<le> n" and "1 \<le> q" and "n * q < 10 ^ 10"
  shows "\<bar>n\<bar> < 10 ^ 10" and "\<bar>n * q\<bar> < 10 ^ 10"
proof -
  from assms(1,2) have "n * 1 \<le> n * q"
    by (rule mult_left_mono [rotated])
  with assms(1,3) show "\<bar>n\<bar> < 10 ^ 10"
    by simp
  from assms(1,2) have "0 \<le> n * q"
    by simp
  with assms(3) show "\<bar>n * q\<bar> < 10 ^ 10"
    by simp
qed

lemma stored_item_line:
  assumes "price = decimal n 2" and "0 \<le> n" and "1 \<le> q" and "q < 2 ^ 31" and "n * q < 10 ^ 10"
  shows "stored_item \<lparr>oi_order_id = oid, oi_product_id = pid, oi_quantity = q,
                       oi_unit_price = price, oi_subtotal = js_mul price (number_of_int q)\<rparr>
         = Some \<lparr>oi_order_id = oid, oi_product_id = pid, oi_quantity = q,
                  oi_unit_price = decimal n 2, oi_subtotal = decimal (n * q) 2\<rparr>"
proof -
  from line_cents [OF assms(2,3,5)] have n10: "\<bar>n\<bar> < 10 ^ 10" and nq10: "\<bar>n * q\<bar> < 10 ^ 10" .
  from assms(2) n10 have n_lt: "n < 10 ^ 10"
    by simp
  from assms(3) have q0: "0 \<le> q"
    by simp
  from line_near [OF assms(2) q0 assms(4,5) n_lt] obtain S
    where S: "js_mul (decimal n 2) (number_of_int q) = Fin S"
      "\<bar>S - of_int (n * q) / 100\<bar> \<le> 1 / 2 ^ 25"
    by blast
  have "(1::rat) / 2 ^ 25 \<le> 1 / 400"
    by simp
  with S(2) have "\<bar>S - of_int (n * q) / 100\<bar> \<le> 1 / 400"
    by linarith
  from numeric_10_2_near [OF this nq10] have sub: "numeric_10_2 (Fin S) = Some (decimal (n * q) 2)" .
  have unit: "numeric_10_2 (decimal n 2) = Some (decimal n 2)"
    using n10 by (rule numeric_10_2_decimal)
  have "(0::int) \<le> 2 ^ 31"
    by simp
  with q0 assms(4) have quantity: "integer_column q = Some q"
    by (simp add: integer_column_def)
  show ?thesis
    by (simp add: stored_item_def assms(1) S(1) sub unit quantity)
qed

lemma kept_lines:
  assumes "list_all2 (\<lambda>n item. p_price (i_product item) = decimal n 2 \<and> 0 \<le> n
                          \<and> 1 \<le> i_quantity item \<and> i_quantity item < 2 ^ 31
                          \<and> n * i_quantity item < 10 ^ 10) cents cart"
  shows "\<exists>items.
           stored_items
             (map (\<lambda>item. \<lparr>oi_order_id = oid, oi_product_id = p_id (i_product item),
                            oi_quantity = i_quantity item, oi_unit_price = p_price (i_product item),
                            oi_subtotal = js_mul (p_price (i_product item))
                                            (number_of_int (i_quantity item))\<rparr>) cart)
             = Some items
           \<and> list_all (\<lambda>it. oi_order_id it = oid) items
           \<and> map oi_product_id items = map (\<lambda>item. p_id (i_product item)) cart
           \<and> map oi_quantity items = map i_quantity cart
           \<and> map oi_unit_price items = map (\<lambda>item. p_price (i_product item)) cart
           \<and> map (\<lambda>it. cents_of (oi_unit_price it)) items = map Some cents
           \<and> map (\<lambda>it. cents_of (oi_subtotal it)) items
               = map2 (\<lambda>it u. Some (oi_quantity it * u)) items cents
           \<and> sum_list (map2 (\<lambda>it u. oi_quantity it * u) items cents)
               = sum_list (map2 (\<lambda>n item. n * i_quantity item) cents cart)"
  using assms
proof (induction rule: list_all2_induct)
  case Nil
  then show ?case by (simp add: stored_items_Nil)
next
  case (Cons n cents item cart)
  let ?q = "i_quantity item"
  let ?y = "\<lparr>oi_order_id = oid, oi_product_id = p_id (i_product item), oi_quantity = ?q,
             oi_unit_price = decimal n 2, oi_subtotal = decimal (n * ?q) 2\<rparr>"
  from Cons.hyps(1) have price: "p_price (i_product item) = decimal n 2"
    and n0: "0 \<le> n" and q1: "1 \<le> ?q" and q31: "?q < 2 ^ 31" and nq: "n * ?q < 10 ^ 10"
    by simp_all
  from stored_item_line [OF price n0 q1 q31 nq]
  have line: "stored_item \<lparr>oi_order_id = oid, oi_product_id = p_id (i_product item),
                           oi_quantity = ?q, oi_unit_price = p_price (i_product item),
                           oi_subtotal = js_mul (p_price (i_product item)) (number_of_int ?q)\<rparr>
              = Some ?y" .
  from line_cents [OF n0 q1 nq] have "cents_of (decimal n 2) = Some n"
    and "cents_of (decimal (n * ?q) 2) = Some (n * ?q)"
    by (simp_all add: cents_of_decimal)
  then have cents: "cents_of (oi_unit_price ?y) = Some n" "cents_of (oi_subtotal ?y) = Some (?q * n)"
    by (simp_all add: mult.commute)
  from Cons.IH obtain items where items:
    "stored_items
       (map (\<lambda>item. \<lparr>oi_order_id = oid, oi_product_id = p_id (i_product item),
                      oi_quantity = i_quantity item, oi_unit_price = p_price (i_product item),
                      oi_subtotal = js_mul (p_price (i_product item))
                                      (number_of_int (i_quantity item))\<rparr>) cart)
       = Some items"
    and ids: "list_all (\<lambda>it. oi_order_id it = oid) items"
    and products: "map oi_product_id items = map (\<lambda>item. p_id (i_product item)) cart"
    and quantities: "map oi_quantity items = map i_quantity cart"
    and prices: "map oi_unit_price items = map (\<lambda>item. p_price (i_product item)) cart"
    and units: "map (\<lambda>it. cents_of (oi_unit_price it)) items = map Some cents"
    and subs: "map (\<lambda>it. cents_of (oi_subtotal it)) items
               = map2 (\<lambda>it u. Some (oi_quantity it * u)) items cents"
    and total: "sum_list (map2 (\<lambda>it u. oi_quantity it * u) items cents)
               = sum_list (map2 (\<lambda>n item. n * i_quantity item) cents cart)"
    by blast
  have "stored_items
          (map (\<lambda>item. \<lparr>oi_order_id = oid, oi_product_id = p_id (i_product item),
                         oi_quantity = i_quantity item, oi_unit_price = p_price (i_product item),
                         oi_subtotal = js_mul (p_price (i_product item))
                                         (number_of_int (i_quantity item))\<rparr>) (item # cart))
          = Some (?y # items)"
    by (simp only: list.map) (rule stored_items_Cons [OF line items])
  moreover have "list_all (\<lambda>it. oi_order_id it = oid) (?y # items)"
    using ids by simp
  moreover have "map oi_product_id (?y # items) = map (\<lambda>item. p_id (i_product item)) (item # cart)"
    using products by simp
  moreover have "map oi_quantity (?y # items) = map i_quantity (item # cart)"
    using quantities by simp
  moreover have "map oi_unit_price (?y # items) = map (\<lambda>item. p_price (i_product item)) (item # cart)"
    using prices price by simp
  moreover have "map (\<lambda>it. cents_of (oi_unit_price it)) (?y # items) = map Some (n # cents)"
    using units cents(1) by simp
  moreover have "map (\<lambda>it. cents_of (oi_subtotal it)) (?y # items)
                  = map2 (\<lambda>it u. Some (oi_quantity it * u)) (?y # items) (n # cents)"
    using subs cents(2) by simp
  moreover have "sum_list (map2 (\<lambda>it u. oi_quantity it * u) (?y # items) (n # cents))
                  = sum_list (map2 (\<lambda>n item. n * i_quantity item) (n # cents) (item # cart))"
    using total by (simp add: mult.commute)
  ultimately show ?case
    by blast
qed

text \<open>
  C2. Take a submission that succeeds, of a cart whose prices are prices of the catalogue
  (amounts of two decimals that are not negative, \<open>n / 100\<close> for the entry's \<open>n\<close> in \<open>cents\<close>)
  and whose quantities are positive, with at most 10000 entries and a total, in exact
  arithmetic, that the column can hold (below \<open>10\<^sup>8\<close>). It adds one pending order and one line
  item for each entry of the cart, in the cart's order, each with the order's identifier
  and the entry's product, quantity and price. The amounts the store keeps are amounts of
  two decimals and, counted in hundredths, the unit price of each line item is the price
  of its entry, its subtotal is its quantity times its unit price, and the total of the
  order is the sum of the subtotals of the line items.
\<close>

theorem persisted_order_totals:
  assumes "handleSubmitOrder reply f s = (Inr oid, s')"
    and "list_all2 (\<lambda>n item. p_price (i_product item) = decimal n 2 \<and> 0 \<le> n \<and> 1 \<le> i_quantity item)
           cents (orderItems f)"
    and "length (orderItems f) \<le> 10000"
    and "sum_list (map2 (\<lambda>n item. n * i_quantity item) cents (orderItems f)) < 10 ^ 10"
  shows "\<exists>row items.
           orders_table s' = orders_table s @ [row]
           \<and> order_items_table s' = order_items_table s @ items
           \<and> o_id row = oid
           \<and> o_status row = ''pending''
           \<and> list_all (\<lambda>it. oi_order_id it = oid) items
           \<and> map oi_product_id items = map (\<lambda>item. p_id (i_product item)) (orderItems f)
           \<and> map oi_quantity items = map i_quantity (orderItems f)
           \<and> map oi_unit_price items = map (\<lambda>item. p_price (i_product item)) (orderItems f)
           \<and> map (\<lambda>it. cents_of (oi_unit_price it)) items = map Some cents
           \<and> map (\<lambda>it. cents_of (oi_subtotal it)) items
               = map2 (\<lambda>it u. Some (oi_quantity it * u)) items cents
           \<and> cents_of (o_total_amount row)
               = Some (sum_list (map2 (\<lambda>it u. oi_quantity it * u) items cents))"
proof -
  let ?cart = "orderItems f"
  let ?sum = "sum_list (map2 (\<lambda>n item. n * i_quantity item) cents ?cart)"
  from handleSubmitOrder_success [OF assms(1)] obtain row items
    where row: "stored_order (orderData f reply) = Some row"
      and items: "stored_items (orderItemsData f oid) = Some items"
      and oid: "o_id row = oid"
      and orders: "orders_table s' = orders_table s @ [row]"
      and lines: "order_items_table s' = order_items_table s @ items"
    by blast
  from items have "list_all (\<lambda>item. i_quantity item < 2 ^ 31) ?cart"
    by (rule stored_items_quantities)
  with assms(2)
  have "list_all2 (\<lambda>n item. (p_price (i_product item) = decimal n 2 \<and> 0 \<le> n \<and> 1 \<le> i_quantity item)
                            \<and> i_quantity item < 2 ^ 31) cents ?cart"
    by (rule list_all2_with)
  then have r1: "list_all2 (\<lambda>n item. p_price (i_product item) = decimal n 2 \<and> 0 \<le> n
                              \<and> 1 \<le> i_quantity item \<and> i_quantity item < 2 ^ 31) cents ?cart"
    by (simp add: conj_assoc)
  have nonneg: "list_all2 (\<lambda>n item. 0 \<le> n \<and> 0 \<le> i_quantity item) cents ?cart"
    by (rule list_all2_mono [OF assms(2)]) simp
  from exact_cents_nonneg [OF nonneg] assms(4) have sum10: "\<bar>?sum\<bar> < 10 ^ 10"
    by simp
  from getTotalAmount_near [OF r1 assms(4,3)] obtain T
    where T: "getTotalAmount ?cart = Fin T" "\<bar>T - of_int ?sum / 100\<bar> \<le> 1 / 400"
    by blast
  from numeric_10_2_near [OF T(2) sum10] T(1)
  have "numeric_10_2 (getTotalAmount ?cart) = Some (decimal ?sum 2)"
    by simp
  moreover from stored_order_fields(3) [OF row]
  have "numeric_10_2 (getTotalAmount ?cart) = Some (o_total_amount row)"
    by (simp add: orderData_def)
  ultimately have "o_total_amount row = decimal ?sum 2"
    by simp
  with cents_of_decimal [OF sum10] have total: "cents_of (o_total_amount row) = Some ?sum"
    by simp
  from stored_order_fields(2) [OF row] have status: "o_status row = ''pending''"
    by (simp add: orderData_def)
  from line_bounds [OF nonneg assms(4)] r1
  have "list_all2 (\<lambda>n item. (p_price (i_product item) = decimal n 2 \<and> 0 \<le> n
                              \<and> 1 \<le> i_quantity item \<and> i_quantity item < 2 ^ 31)
                            \<and> n * i_quantity item < 10 ^ 10) cents ?cart"
    by (simp add: list_all2_conv_all_nth)
  then have r2: "list_all2 (\<lambda>n item. p_price (i_product item) = decimal n 2 \<and> 0 \<le> n
                              \<and> 1 \<le> i_quantity item \<and> i_quantity item < 2 ^ 31
                              \<and> n * i_quantity item < 10 ^ 10) cents ?cart"
    by (simp add: conj_assoc)
  from kept_lines [OF r2, of oid] items obtain
    ids: "list_all (\<lambda>it. oi_order_id it = oid) items"
    and products: "map oi_product_id items = map (\<lambda>item. p_id (i_product item)) ?cart"
    and quantities: "map oi_quantity items = map i_quantity ?cart"
    and prices: "map oi_unit_price items = map (\<lambda>item. p_price (i_product item)) ?cart"
    and units: "map (\<lambda>it. cents_of (oi_unit_price it)) items = map Some cents"
    and subs: "map (\<lambda>it. cents_of (oi_subtotal it)) items
               = map2 (\<lambda>it u. Some (oi_quantity it * u)) items cents"
    and sum: "sum_list (map2 (\<lambda>it u. oi_quantity it * u) items cents) = ?sum"
    by (auto simp: orderItemsData_def)
  from total sum have "cents_of (o_total_amount row)
                        = Some (sum_list (map2 (\<lambda>it u. oi_quantity it * u) items cents))"
    by simp
  with orders lines oid status ids products quantities prices units subs show ?thesis
    by blast
qed

text \<open>The rows the two tables keep in two scenarios.\<close>

lemma table_number_5: "integer_or_null (Some (parseInt ''5'')) = Some (Some (Fin 5))"
  by (simp add: parseInt_5 integer_or_null_def)

lemma form1_table: "form1\<lparr>tableNumber := ''5''\<rparr> = form1"
  by (simp add: form1_def)

lemma tenths_doubles:
  "decimal 10 2 = Fin (3602879701896397 / 36028797018963968)"
  "decimal 20 2 = Fin (3602879701896397 / 18014398509481984)"
  "decimal 30 2 = Fin (5404319552844595 / 18014398509481984)"
  by (simp_all add: double_eval)

lemma tenths_cart:
  "orderItems form_tenths
     = [priced ''t1'' (decimal 10 2) 1, priced ''t2'' (decimal 20 2) 1, priced ''t3'' (decimal 30 2) 1]"
  by (simp add: form_tenths_def)

lemma tenths_total: "getTotalAmount (orderItems form_tenths) = Fin (1351079888211149 / 2251799813685248)"
  by (simp only: tenths_cart tenths_doubles)
     (simp add: getTotalAmount_def priced_def number_of_int_1 js_mul_Fin js_add_Fin round_eval)

lemma tenths_not_sixty: "Fin (1351079888211149 / 2251799813685248) \<noteq> decimal 60 2"
  by (simp add: double_eval)

lemma tenths_kept: "numeric_10_2 (Fin (1351079888211149 / 2251799813685248)) = Some (decimal 60 2)"
  by (rule numeric_10_2_near) simp_all

lemma tenths_items:
  "stored_items (orderItemsData form_tenths ''o2'')
     = Some [\<lparr>oi_order_id = ''o2'', oi_product_id = ''t1'', oi_quantity = 1,
               oi_unit_price = decimal 10 2, oi_subtotal = decimal 10 2\<rparr>,
             \<lparr>oi_order_id = ''o2'', oi_product_id = ''t2'', oi_quantity = 1,
               oi_unit_price = decimal 20 2, oi_subtotal = decimal 20 2\<rparr>,
             \<lparr>oi_order_id = ''o2'', oi_product_id = ''t3'', oi_quantity = 1,
               oi_unit_price = decimal 30 2, oi_subtotal = decimal 30 2\<rparr>]"
proof -
  have payload:
    "orderItemsData form_tenths ''o2''
       = [\<lparr>oi_order_id = ''o2'', oi_product_id = ''t1'', oi_quantity = 1,
            oi_unit_price = decimal 10 2, oi_subtotal = js_mul (decimal 10 2) (number_of_int 1)\<rparr>,
          \<lparr>oi_order_id = ''o2'', oi_product_id = ''t2'', oi_quantity = 1,
            oi_unit_price = decimal 20 2, oi_subtotal = js_mul (decimal 20 2) (number_of_int 1)\<rparr>,
          \<lparr>oi_order_id = ''o2'', oi_product_id = ''t3'', oi_quantity = 1,
            oi_unit_price = decimal 30 2, oi_subtotal = js_mul (decimal 30 2) (number_of_int 1)\<rparr>]"
    by (simp add: orderItemsData_def tenths_cart priced_def)
  have l1: "stored_item \<lparr>oi_order_id = ''o2'', oi_product_id = ''t1'', oi_quantity = 1,
              oi_unit_price = decimal 10 2, oi_subtotal = js_mul (decimal 10 2) (number_of_int 1)\<rparr>
            = Some \<lparr>oi_order_id = ''o2'', oi_product_id = ''t1'', oi_quantity = 1,
                     oi_unit_price = decimal 10 2, oi_subtotal = decimal 10 2\<rparr>"
    using stored_item_line [where price = "decimal 10 2" and n = 10 and q = 1
        and oid = "''o2''" and pid = "''t1''"]
    by simp
  have l2: "stored_item \<lparr>oi_order_id = ''o2'', oi_product_id = ''t2'', oi_quantity = 1,
              oi_unit_price = decimal 20 2, oi_subtotal = js_mul (decimal 20 2) (number_of_int 1)\<rparr>
            = Some \<lparr>oi_order_id = ''o2'', oi_product_id = ''t2'', oi_quantity = 1,
                     oi_unit_price = decimal 20 2, oi_subtotal = decimal 20 2\<rparr>"
    using stored_item_line [where price = "decimal 20 2" and n = 20 and q = 1
        and oid = "''o2''" and pid = "''t2''"]
    by simp
  have l3: "stored_item \<lparr>oi_order_id = ''o2'', oi_product_id = ''t3'', oi_quantity = 1,
              oi_unit_price = decimal 30 2, oi_subtotal = js_mul (decimal 30 2) (number_of_int 1)\<rparr>
            = Some \<lparr>oi_order_id = ''o2'', oi_product_id = ''t3'', oi_quantity = 1,
                     oi_unit_price = decimal 30 2, oi_subtotal = decimal 30 2\<rparr>"
    using stored_item_line [where price = "decimal 30 2" and n = 30 and q = 1
        and oid = "''o2''" and pid = "''t3''"]
    by simp
  show ?thesis
    by (simp only: payload) (intro stored_items_Cons l1 l2 l3 stored_items_Nil)
qed

lemma tenths_submit:
  "handleSubmitOrder reply1 form_tenths empty_store
     = (Inr ''o2'',
        empty_store
          \<lparr>orders_table :=
             [\<lparr>o_id = ''o2'', o_employee_id = Some ''e1'', o_order_type = dine_in,
               o_table_number = Some (Fin 5), o_customer_name = None, o_customer_address = None,
               o_customer_location = None, o_total_amount = decimal 60 2, o_status = ''pending'',
               o_created_at = time_stamp 20000 12 0 0\<rparr>],
           order_items_table :=
             [\<lparr>oi_order_id = ''o2'', oi_product_id = ''t1'', oi_quantity = 1,
               oi_unit_price = decimal 10 2, oi_subtotal = decimal 10 2\<rparr>,
              \<lparr>oi_order_id = ''o2'', oi_product_id = ''t2'', oi_quantity = 1,
               oi_unit_price = decimal 20 2, oi_subtotal = decimal 20 2\<rparr>,
              \<lparr>oi_order_id = ''o2'', oi_product_id = ''t3'', oi_quantity = 1,
               oi_unit_price = decimal 30 2, oi_subtotal = decimal 30 2\<rparr>]\<rparr>)"
proof -
  have fields: "orderItems form_tenths \<noteq> []" "orderType form_tenths = dine_in"
    "tableNumber form_tenths = ''5''" "profile_id form_tenths = Some ''e1''"
    "\<not> order_insert_error reply1" "\<not> items_insert_error reply1"
    "new_order_id reply1 = ''o2''" "new_created_at reply1 = time_stamp 20000 12 0 0"
    by (simp_all add: form_tenths_def form1_def reply1_def)
  have tables: "orders_table empty_store = []" "order_items_table empty_store = []"
    by (simp_all add: empty_store_def)
  have row: "stored_order (orderData form_tenths reply1)
     = Some \<lparr>o_id = ''o2'', o_employee_id = Some ''e1'', o_order_type = dine_in,
              o_table_number = Some (Fin 5), o_customer_name = None, o_customer_address = None,
              o_customer_location = None, o_total_amount = decimal 60 2, o_status = ''pending'',
              o_created_at = time_stamp 20000 12 0 0\<rparr>"
    by (simp add: stored_order_def orderData_def tenths_total tenths_kept fields table_number_5)
  show ?thesis
    by (simp add: handleSubmitOrder_def fields row tenths_items tables)
qed

text \<open>
  Two submissions. The end-to-end scenario: two Margherita at 12.99 and one Soda at 2.99 for
  table 5 give a pending order of total 28.97 with subtotals 25.98 and 2.99. A cart of three
  entries priced 0.10, 0.20 and 0.30: the total the program computes is 0.6000000000000001,
  the total the store keeps is 0.60, the sum of the subtotals it keeps.
\<close>

theorem persisted_order_totals_witness:
  "fst (handleSubmitOrder reply1 form1 empty_store) = Inr ''o2''
   \<and> map (\<lambda>row. (o_id row, o_status row, o_table_number row, o_total_amount row))
         (orders_table (snd (handleSubmitOrder reply1 form1 empty_store)))
       = [(''o2'', ''pending'', Some (Fin 5), decimal 2897 2)]
   \<and> map (\<lambda>it. (oi_order_id it, oi_product_id it, oi_quantity it, oi_unit_price it, oi_subtotal it))
         (order_items_table (snd (handleSubmitOrder reply1 form1 empty_store)))
       = [(''o2'', ''p1'', 2, decimal 1299 2, decimal 2598 2),
          (''o2'', ''p2'', 1, decimal 299 2, decimal 299 2)]
   \<and> map (\<lambda>row. cents_of (o_total_amount row))
         (orders_table (snd (handleSubmitOrder reply1 form1 empty_store)))
       = [Some 2897]
   \<and> map (\<lambda>it. (cents_of (oi_unit_price it), cents_of (oi_subtotal it)))
         (order_items_table (snd (handleSubmitOrder reply1 form1 empty_store)))
       = [(Some 1299, Some 2598), (Some 299, Some 299)]
   \<and> getTotalAmount (orderItems form_tenths) = Fin (1351079888211149 / 2251799813685248)
   \<and> Fin (1351079888211149 / 2251799813685248) \<noteq> decimal 60 2
   \<and> map (\<lambda>row. (o_total_amount row, cents_of (o_total_amount row)))
         (orders_table (snd (handleSubmitOrder reply1 form_tenths empty_store)))
       = [(decimal 60 2, Some 60)]
   \<and> map (\<lambda>it. (cents_of (oi_unit_price it), cents_of (oi_subtotal it)))
         (order_items_table (snd (handleSubmitOrder reply1 form_tenths empty_store)))
       = [(Some 10, Some 10), (Some 20, Some 20), (Some 30, Some 30)]"
proof -
  let ?order = "\<lparr>o_id = ''o2'', o_employee_id = Some ''e1'', o_order_type = dine_in,
                 o_table_number = Some (Fin 5), o_customer_name = None, o_customer_address = None,
                 o_customer_location = None, o_total_amount = decimal 2897 2, o_status = ''pending'',
                 o_created_at = time_stamp 20000 12 0 0\<rparr>"
  let ?line1 = "\<lparr>oi_order_id = ''o2'', oi_product_id = ''p1'', oi_quantity = 2,
                 oi_unit_price = decimal 1299 2, oi_subtotal = decimal 2598 2\<rparr>"
  let ?line2 = "\<lparr>oi_order_id = ''o2'', oi_product_id = ''p2'', oi_quantity = 1,
                 oi_unit_price = decimal 299 2, oi_subtotal = decimal 299 2\<rparr>"
  let ?s' = "empty_store\<lparr>orders_table := [?order], order_items_table := [?line1, ?line2]\<rparr>"
  have "''5'' \<noteq> []"
    by simp
  from e2e_submit [OF this table_number_5]
  have run: "handleSubmitOrder reply1 form1 empty_store = (Inr ''o2'', ?s')"
    by (simp only: form1_table)
  have prices: "list_all2 (\<lambda>n item. p_price (i_product item) = decimal n 2 \<and> 0 \<le> n \<and> 1 \<le> i_quantity item)
                  [1299, 299] (orderItems form1)"
    by (simp add: form1_def margherita_def soda_def)
  have size: "length (orderItems form1) \<le> 10000"
    by (simp add: form1_def)
  have total: "sum_list (map2 (\<lambda>n item. n * i_quantity item) [1299, 299] (orderItems form1)) < 10 ^ 10"
    by (simp add: form1_def)
  have tables: "orders_table empty_store = []" "order_items_table empty_store = []"
    by (simp_all add: empty_store_def)
  from persisted_order_totals [OF run prices size total] obtain row items
    where "orders_table ?s' = orders_table empty_store @ [row]"
      and "order_items_table ?s' = order_items_table empty_store @ items"
      and units: "map (\<lambda>it. cents_of (oi_unit_price it)) items = map Some [1299, 299]"
      and subs: "map (\<lambda>it. cents_of (oi_subtotal it)) items
                 = map2 (\<lambda>it u. Some (oi_quantity it * u)) items [1299, 299]"
      and sum: "cents_of (o_total_amount row)
                = Some (sum_list (map2 (\<lambda>it u. oi_quantity it * u) items [1299, 299]))"
    by blast
  with tables have row: "row = ?order" and items: "items = [?line1, ?line2]"
    by simp_all
  have a: "fst (handleSubmitOrder reply1 form1 empty_store) = Inr ''o2''"
    by (simp add: run)
  have b: "map (\<lambda>row. (o_id row, o_status row, o_table_number row, o_total_amount row))
             (orders_table (snd (handleSubmitOrder reply1 form1 empty_store)))
           = [(''o2'', ''pending'', Some (Fin 5), decimal 2897 2)]"
    by (simp add: run)
  have c: "map (\<lambda>it. (oi_order_id it, oi_product_id it, oi_quantity it, oi_unit_price it, oi_subtotal it))
             (order_items_table (snd (handleSubmitOrder reply1 form1 empty_store)))
           = [(''o2'', ''p1'', 2, decimal 1299 2, decimal 2598 2),
              (''o2'', ''p2'', 1, decimal 299 2, decimal 299 2)]"
    by (simp add: run)
  from sum have sum': "cents_of (decimal 2897 2) = Some 2897"
    by (simp add: row items)
  from units have units': "cents_of (decimal 1299 2) = Some 1299" "cents_of (decimal 299 2) = Some 299"
    by (simp_all add: items)
  from subs have subs': "cents_of (decimal 2598 2) = Some 2598"
    by (simp add: items)
  have d: "map (\<lambda>row. cents_of (o_total_amount row))
             (orders_table (snd (handleSubmitOrder reply1 form1 empty_store)))
           = [Some 2897]"
    by (simp add: run sum')
  have e: "map (\<lambda>it. (cents_of (oi_unit_price it), cents_of (oi_subtotal it)))
             (order_items_table (snd (handleSubmitOrder reply1 form1 empty_store)))
           = [(Some 1299, Some 2598), (Some 299, Some 299)]"
    by (simp add: run units' subs')
  let ?order3 = "\<lparr>o_id = ''o2'', o_employee_id = Some ''e1'', o_order_type = dine_in,
                  o_table_number = Some (Fin 5), o_customer_name = None, o_customer_address = None,
                  o_customer_location = None, o_total_amount = decimal 60 2, o_status = ''pending'',
                  o_created_at = time_stamp 20000 12 0 0\<rparr>"
  let ?t1 = "\<lparr>oi_order_id = ''o2'', oi_product_id = ''t1'', oi_quantity = 1,
              oi_unit_price = decimal 10 2, oi_subtotal = decimal 10 2\<rparr>"
  let ?t2 = "\<lparr>oi_order_id = ''o2'', oi_product_id = ''t2'', oi_quantity = 1,
              oi_unit_price = decimal 20 2, oi_subtotal = decimal 20 2\<rparr>"
  let ?t3 = "\<lparr>oi_order_id = ''o2'', oi_product_id = ''t3'', oi_quantity = 1,
              oi_unit_price = decimal 30 2, oi_subtotal = decimal 30 2\<rparr>"
  let ?s3 = "empty_store\<lparr>orders_table := [?order3], order_items_table := [?t1, ?t2, ?t3]\<rparr>"
  have run3: "handleSubmitOrder reply1 form_tenths empty_store = (Inr ''o2'', ?s3)"
    by (rule tenths_submit)
  have prices3: "list_all2 (\<lambda>n item. p_price (i_product item) = decimal n 2 \<and> 0 \<le> n \<and> 1 \<le> i_quantity item)
                  [10, 20, 30] (orderItems form_tenths)"
    by (simp add: tenths_cart priced_def)
  have size3: "length (orderItems form_tenths) \<le> 10000"
    by (simp add: tenths_cart)
  have total3: "sum_list (map2 (\<lambda>n item. n * i_quantity item) [10, 20, 30] (orderItems form_tenths)) < 10 ^ 10"
    by (simp add: tenths_cart priced_def)
  from persisted_order_totals [OF run3 prices3 size3 total3] obtain row3 items3
    where "orders_table ?s3 = orders_table empty_store @ [row3]"
      and "order_items_table ?s3 = order_items_table empty_store @ items3"
      and units3: "map (\<lambda>it. cents_of (oi_unit_price it)) items3 = map Some [10, 20, 30]"
      and sum3: "cents_of (o_total_amount row3)
                = Some (sum_list (map2 (\<lambda>it u. oi_quantity it * u) items3 [10, 20, 30]))"
    by blast
  with tables have row3: "row3 = ?order3" and items3: "items3 = [?t1, ?t2, ?t3]"
    by simp_all
  from sum3 have sum3': "cents_of (decimal 60 2) = Some 60"
    by (simp add: row3 items3)
  from units3 have units3': "cents_of (decimal 10 2) = Some 10" "cents_of (decimal 20 2) = Some 20"
    "cents_of (decimal 30 2) = Some 30"
    by (simp_all add: items3)
  have f: "getTotalAmount (orderItems form_tenths) = Fin (1351079888211149 / 2251799813685248)"
    by (rule tenths_total)
  have g: "Fin (1351079888211149 / 2251799813685248) \<noteq> decimal 60 2"
    by (rule tenths_not_sixty)
  have h: "map (\<lambda>row. (o_total_amount row, cents_of (o_total_amount row)))
             (orders_table (snd (handleSubmitOrder reply1 form_tenths empty_store)))
           = [(decimal 60 2, Some 60)]"
    by (simp add: run3 sum3')
  have i: "map (\<lambda>it. (cents_of (oi_unit_price it), cents_of (oi_subtotal it)))
             (order_items_table (snd (handleSubmitOrder reply1 form_tenths empty_store)))
           = [(Some 10, Some 10), (Some 20, Some 20), (Some 30, Some 30)]"
    by (simp add: run3 units3')
  from a b c d e f g h i show ?thesis
    by (intro conjI)
qed

section \<open>Grouping by date: properties\<close>

lemma push_group_keys:
  "map fst (push_group k x g) = (if k \<in> fst ` set g then map fst g else map fst g @ [k])"
  by (induction g) (auto split: if_splits)

lemma push_group_map_of:
  "map_of (push_group k x g) k'
     = (if k' = k then Some ((case map_of g k of None \<Rightarrow> [] | Some xs \<Rightarrow> xs) @ [x]) else map_of g k')"
  by (induction g) auto

lemma push_group_mset:
  "mset (concat (map snd (push_group k x g))) = mset (concat (map snd g)) + {#x#}"
  by (induction g) auto

lemma push_group_distinct: "distinct (map fst g) \<Longrightarrow> distinct (map fst (push_group k x g))"
  by (simp add: push_group_keys)

lemma grouping_distinct:
  "distinct (map fst (foldl (\<lambda>groups x. push_group (key x) x groups) [] os))"
  by (induction os rule: rev_induct) (simp_all add: push_group_distinct)

lemma grouping_map_of:
  "map_of (foldl (\<lambda>groups x. push_group (key x) x groups) [] os) k
     = (if k \<in> key ` set os then Some (filter (\<lambda>x. key x = k) os) else None)"
proof (induction os rule: rev_induct)
  case Nil
  then show ?case by simp
next
  case (snoc x os)
  show ?case
  proof (cases "k = key x")
    case True
    have "filter (\<lambda>y. key y = key x) os = []" if "key x \<notin> key ` set os"
    proof -
      have "key y \<noteq> key x" if "y \<in> set os" for y
        using that \<open>key x \<notin> key ` set os\<close> by (metis imageI)
      then show ?thesis by (simp add: filter_empty_conv)
    qed
    with True snoc show ?thesis
      by (simp add: push_group_map_of)
  next
    case False
    with snoc show ?thesis
      by (auto simp: push_group_map_of)
  qed
qed

lemma grouping_mset:
  "mset (concat (map snd (foldl (\<lambda>groups x. push_group (key x) x groups) [] os))) = mset os"
  by (induction os rule: rev_induct) (simp_all add: push_group_mset)

lemma grouping_keys:
  "fst ` set (foldl (\<lambda>groups x. push_group (key x) x groups) [] os) = key ` set os"
proof -
  let ?g = "foldl (\<lambda>groups x. push_group (key x) x groups) [] os"
  have "dom (map_of ?g) = key ` set os"
    by (auto simp: grouping_map_of dom_def)
  then show ?thesis by (simp add: dom_map_of_conv_image_fst)
qed

lemma grouping_bucket:
  assumes "(k, xs) \<in> set (foldl (\<lambda>groups x. push_group (key x) x groups) [] os)"
  shows "xs = filter (\<lambda>x. key x = k) os"
proof -
  let ?g = "foldl (\<lambda>groups x. push_group (key x) x groups) [] os"
  from assms have "map_of ?g k = Some xs"
    using grouping_distinct [of key os] by simp
  then show ?thesis
    by (simp add: grouping_map_of split: if_splits)
qed

lemma mset_concat_as_sum:
  "mset (concat (map snd l)) = sum_mset (image_mset (\<lambda>e. mset (snd e)) (mset l))"
  by (induction l) simp_all

lemma mset_concat_snd_sort:
  "mset (concat (map snd (sort_key f g))) = mset (concat (map snd g))"
  by (simp add: mset_concat_as_sum)

lemma sorted_by_getTime:
  assumes "sorted (map (\<lambda>entry. - getTime tz (fst entry)) r)"
  shows "sorted (rev (map fst r))"
proof -
  from assms have "sorted_wrt (\<lambda>a b. - getTime tz (fst a) \<le> - getTime tz (fst b)) r"
    by (simp add: sorted_map)
  then have "sorted_wrt (\<lambda>a b. fst b \<le> fst a) r"
    by (rule sorted_wrt_mono_rel [rotated]) (simp add: getTime_def)
  then show ?thesis
    by (simp add: sorted_wrt_rev sorted_wrt_map)
qed

lemma mset_keys_sort: "mset (map fst (sort_key f g)) = mset (map fst g)"
  by (simp add: mset_map)

lemma grouped_distinct:
  "distinct (map fst (groupOrdersByDate tz os))"
proof -
  let ?key = "\<lambda>order. toDateString tz (o_created_at order)"
  let ?g = "foldl (\<lambda>groups order. push_group (?key order) order groups) [] os"
  have "distinct (map fst ?g)"
    by (rule grouping_distinct)
  then have "distinct (map fst (sort_key (\<lambda>entry. - getTime tz (fst entry)) ?g))"
    by (simp only: mset_eq_imp_distinct_iff [OF mset_keys_sort [of "\<lambda>entry. - getTime tz (fst entry)" ?g]])
  then show ?thesis
    by (simp only: groupOrdersByDate_def)
qed

lemma grouped_sorted: "sorted (rev (map fst (groupOrdersByDate tz os)))"
proof (rule sorted_by_getTime [of tz])
  show "sorted (map (\<lambda>entry. - getTime tz (fst entry)) (groupOrdersByDate tz os))"
    by (simp only: groupOrdersByDate_def sorted_sort_key)
qed

lemma grouped_set:
  "set (groupOrdersByDate tz os)
     = set (foldl (\<lambda>groups order. push_group (toDateString tz (o_created_at order)) order groups) [] os)"
  by (simp only: groupOrdersByDate_def set_sort)

lemma grouped_keys:
  "fst ` set (groupOrdersByDate tz os) = (\<lambda>order. toDateString tz (o_created_at order)) ` set os"
  by (simp only: grouped_set grouping_keys)

lemma grouped_bucket:
  assumes "(day, bucket) \<in> set (groupOrdersByDate tz os)"
  shows "bucket = filter (\<lambda>order. toDateString tz (o_created_at order) = day) os"
proof -
  from assms
  have "(day, bucket) \<in> set (foldl (\<lambda>groups order. push_group (toDateString tz (o_created_at order)) order groups) [] os)"
    by (simp only: grouped_set)
  then show ?thesis
    by (rule grouping_bucket)
qed

lemma grouped_mset: "mset (concat (map snd (groupOrdersByDate tz os))) = mset os"
  by (simp only: groupOrdersByDate_def mset_concat_snd_sort grouping_mset)

text \<open>
  C7. \<^verbatim>\<open>groupOrdersByDate\<close> gives one bucket for each local calendar date on which an order
  of the list was created and no other; buckets come by decreasing date; the bucket of a
  date holds exactly the orders created on that date, in the order in which the list gives
  them; and the buckets, one after the other, hold the orders of the list, each as often
  as the list does.
\<close>

theorem groupOrdersByDate_buckets:
  "distinct (map fst (groupOrdersByDate tz os))
   \<and> sorted (rev (map fst (groupOrdersByDate tz os)))
   \<and> fst ` set (groupOrdersByDate tz os) = (\<lambda>order. toDateString tz (o_created_at order)) ` set os
   \<and> (\<forall>(day, bucket) \<in> set (groupOrdersByDate tz os).
         bucket = filter (\<lambda>order. toDateString tz (o_created_at order) = day) os)
   \<and> mset (concat (map snd (groupOrdersByDate tz os))) = mset os"
proof (intro conjI)
  show "distinct (map fst (groupOrdersByDate tz os))"
    by (rule grouped_distinct)
  show "sorted (rev (map fst (groupOrdersByDate tz os)))"
    by (rule grouped_sorted)
  show "fst ` set (groupOrdersByDate tz os) = (\<lambda>order. toDateString tz (o_created_at order)) ` set os"
    by (rule grouped_keys)
  show "\<forall>(day, bucket) \<in> set (groupOrdersByDate tz os).
         bucket = filter (\<lambda>order. toDateString tz (o_created_at order) = day) os"
  proof
    fix entry
    assume "entry \<in> set (groupOrdersByDate tz os)"
    then have "(fst entry, snd entry) \<in> set (groupOrdersByDate tz os)"
      by simp
    then have "snd entry = filter (\<lambda>order. toDateString tz (o_created_at order) = fst entry) os"
      by (rule grouped_bucket)
    then show "case entry of (day, bucket) \<Rightarrow>
                 bucket = filter (\<lambda>order. toDateString tz (o_created_at order) = day) os"
      by (simp add: case_prod_unfold)
  qed
  show "mset (concat (map snd (groupOrdersByDate tz os))) = mset os"
    by (rule grouped_mset)
qed

lemma example_created_at:
  "o_created_at order1 = 1728032400000000"
  "o_created_at order2 = 1728050400000000"
  "o_created_at order3 = 1728086370000000"
  "o_created_at order4 = 1728086399000000"
  "o_created_at order5 = 1727956800000000"
  by (simp_all add: order1_def order2_def order3_def order4_def order5_def time_stamp_def)

lemma example_groups_utc:
  "groupOrdersByDate 0 [order5, order1, order3, order2]
     = [(20000, [order1, order3, order2]), (19999, [order5])]"
  by (simp add: groupOrdersByDate_def toDateString_def getTime_def example_created_at)

lemma example_groups_east:
  "groupOrdersByDate 60 [order5, order1, order3, order2]
     = [(20001, [order3]), (20000, [order1, order2]), (19999, [order5])]"
  by (simp add: groupOrdersByDate_def toDateString_def getTime_def example_created_at)

theorem groupOrdersByDate_buckets_witness:
  "groupOrdersByDate 0 [order5, order1, order3, order2]
     = [(20000, [order1, order3, order2]), (19999, [order5])]
   \<and> groupOrdersByDate 60 [order5, order1, order3, order2]
     = [(20001, [order3]), (20000, [order1, order2]), (19999, [order5])]
   \<and> [order1, order3, order2]
     = filter (\<lambda>order. toDateString 0 (o_created_at order) = 20000) [order5, order1, order3, order2]
   \<and> mset (concat (map snd (groupOrdersByDate 0 [order5, order1, order3, order2])))
     = mset [order5, order1, order3, order2]"
proof -
  note th = groupOrdersByDate_buckets [of 0 "[order5, order1, order3, order2]"]
  have m: "(20000, [order1, order3, order2]) \<in> set (groupOrdersByDate 0 [order5, order1, order3, order2])"
    by (simp add: example_groups_utc)
  have "case (20000, [order1, order3, order2]) of (day, bucket) \<Rightarrow>
          bucket = filter (\<lambda>order. toDateString 0 (o_created_at order) = day) [order5, order1, order3, order2]"
    using th [THEN conjunct2, THEN conjunct2, THEN conjunct2, THEN conjunct1] m by (rule bspec)
  then have b: "[order1, order3, order2]
     = filter (\<lambda>order. toDateString 0 (o_created_at order) = 20000) [order5, order1, order3, order2]"
    by (simp only: prod.case)
  have p: "mset (concat (map snd (groupOrdersByDate 0 [order5, order1, order3, order2])))
     = mset [order5, order1, order3, order2]"
    by (rule th [THEN conjunct2, THEN conjunct2, THEN conjunct2, THEN conjunct2])
  from example_groups_utc example_groups_east b p show ?thesis
    by (intro conjI)
qed

section \<open>Dashboard statistics: properties\<close>

lemma time_stamp_bounds:
  "time_stamp day 0 0 0 = day * 86400000000"
  "time_stamp day 23 59 59 = day * 86400000000 + 86399000000"
  by (simp_all add: time_stamp_def)

lemma window_div_mod:
  fixes t d N M :: int
  assumes "0 < N" and "M \<le> N"
  shows "d * N \<le> t \<and> t < d * N + M \<longleftrightarrow> t div N = d \<and> t mod N < M"
proof
  assume w: "d * N \<le> t \<and> t < d * N + M"
  let ?r = "t - d * N"
  have eq: "t = N * d + ?r"
    by (simp add: algebra_simps)
  from w assms have r: "0 \<le> ?r" "?r < N"
    by simp_all
  from eq r have "t div N = d" and "t mod N = ?r"
    by (rule int_div_pos_eq, rule int_mod_pos_eq)
  with w show "t div N = d \<and> t mod N < M"
    by simp
next
  assume h: "t div N = d \<and> t mod N < M"
  have "t = t div N * N + t mod N"
    by simp
  with h have "t = d * N + t mod N"
    by simp
  moreover from assms have "0 \<le> t mod N"
    by simp
  ultimately show "d * N \<le> t \<and> t < d * N + M"
    using h by linarith
qed

lemma in_window_iff:
  "in_window day row
     \<longleftrightarrow> o_created_at row div 86400000000 = day \<and> o_created_at row mod 86400000000 < 86399000000"
  using window_div_mod [of 86400000000 86399000000 day "o_created_at row"]
  by (simp add: in_window_def time_stamp_bounds)

lemma revenue_as_sum:
  "foldl (\<lambda>sum row. js_add sum (o_total_amount row)) (Fin 0) rows
     = foldl js_add (Fin 0) (map o_total_amount rows)"
  by (simp add: foldl_map)

lemma in_window_filter:
  "filter (in_window day) rows
     = filter (\<lambda>row. o_created_at row div 86400000000 = day
                      \<and> o_created_at row mod 86400000000 < 86399000000) rows"
  by (rule filter_cong) (simp_all add: in_window_iff)

lemma fetchStats_revenue:
  "todayRevenue (fetchStats clock s)
     = or_zero (foldl js_add (Fin 0) (map o_total_amount (filter (in_window (iso_date clock)) (orders_table s))))"
  by (simp add: fetchStats_def Let_def revenue_as_sum)

lemma reportData_aggregates:
  assumes "reportData day s = Some rd"
  shows "rd_totalOrders rd = length (filter (in_window day) (orders_table s))
         \<and> rd_totalRevenue rd
             = or_zero (foldl js_add (Fin 0) (map o_total_amount (filter (in_window day) (orders_table s))))"
proof (cases "None \<in> set (map (\<lambda>row. report_items s (o_id row)) (filter (in_window day) (orders_table s)))")
  case True
  then have "reportData day s = None"
    unfolding reportData_def Let_def by (rule if_P)
  with assms show ?thesis by simp
next
  case False
  then have "reportData day s = Some
     \<lparr>rd_date = day,
      rd_totalOrders = length (filter (in_window day) (orders_table s)),
      rd_totalRevenue = or_zero (foldl (\<lambda>sum row. js_add sum (o_total_amount row)) (Fin 0)
                                  (filter (in_window day) (orders_table s))),
      rd_orders = map (\<lambda>row. \<lparr>ro_id = o_id row, ro_type = o_order_type row,
                                  ro_amount = o_total_amount row,
                                  ro_items = the (report_items s (o_id row))\<rparr>)
                    (filter (in_window day) (orders_table s))\<rparr>"
    unfolding reportData_def Let_def by (rule if_not_P)
  with assms have "rd = \<lparr>rd_date = day,
      rd_totalOrders = length (filter (in_window day) (orders_table s)),
      rd_totalRevenue = or_zero (foldl (\<lambda>sum row. js_add sum (o_total_amount row)) (Fin 0)
                                  (filter (in_window day) (orders_table s))),
      rd_orders = map (\<lambda>row. \<lparr>ro_id = o_id row, ro_type = o_order_type row,
                                  ro_amount = o_total_amount row,
                                  ro_items = the (report_items s (o_id row))\<rparr>)
                    (filter (in_window day) (orders_table s))\<rparr>"
    by simp
  then show ?thesis
    by (simp add: revenue_as_sum)
qed

lemma window_edges:
  "o_created_at row = time_stamp day 23 59 30 \<Longrightarrow> in_window day row"
  "o_created_at row = time_stamp day 23 59 59 \<Longrightarrow> \<not> in_window day row"
  by (simp_all add: in_window_def time_stamp_def)

text \<open>
  C5, as amended. \<^verbatim>\<open>fetchStats\<close> counts all orders and all pending orders, whatever their
  date, and sums the totals of the orders created on the UTC date of the clock from 00:00:00
  up to, and not including, 23:59:59: an order created at 23:59:30 is in the window, one
  created at 23:59:59 is not. The counts are zero when there is no order, and the revenue
  is 0 when no order is in the window. The sales report, whose date the caller supplies,
  counts and sums over the same window of that date.
\<close>

theorem fetchStats_aggregates:
  "totalOrders (fetchStats clock s) = length (orders_table s)
   \<and> pendingOrders (fetchStats clock s)
       = length (filter (\<lambda>row. o_status row = ''pending'') (orders_table s))
   \<and> todayRevenue (fetchStats clock s)
       = or_zero (foldl js_add (Fin 0) (map o_total_amount
           (filter (\<lambda>row. o_created_at row div 86400000000 = clock div 86400000
                           \<and> o_created_at row mod 86400000000 < 86399000000) (orders_table s))))
   \<and> (o_created_at row = time_stamp day 23 59 30 \<longrightarrow> in_window day row)
   \<and> (o_created_at row = time_stamp day 23 59 59 \<longrightarrow> \<not> in_window day row)
   \<and> (orders_table s = [] \<longrightarrow>
         totalOrders (fetchStats clock s) = 0 \<and> pendingOrders (fetchStats clock s) = 0)
   \<and> (filter (in_window (iso_date clock)) (orders_table s) = [] \<longrightarrow>
         todayRevenue (fetchStats clock s) = Fin 0)
   \<and> (reportData day s = Some rd \<longrightarrow>
         rd_totalOrders rd = length (filter (in_window day) (orders_table s))
         \<and> rd_totalRevenue rd
             = or_zero (foldl js_add (Fin 0) (map o_total_amount (filter (in_window day) (orders_table s)))))"
proof (intro conjI impI)
  show "totalOrders (fetchStats clock s) = length (orders_table s)"
    by (simp add: fetchStats_def Let_def)
  show "pendingOrders (fetchStats clock s)
       = length (filter (\<lambda>row. o_status row = ''pending'') (orders_table s))"
    by (simp add: fetchStats_def Let_def)
  show "todayRevenue (fetchStats clock s)
       = or_zero (foldl js_add (Fin 0) (map o_total_amount
           (filter (\<lambda>row. o_created_at row div 86400000000 = clock div 86400000
                           \<and> o_created_at row mod 86400000000 < 86399000000) (orders_table s))))"
    by (simp only: fetchStats_revenue in_window_filter iso_date_def)
next
  assume "o_created_at row = time_stamp day 23 59 30"
  then show "in_window day row" by (rule window_edges)
next
  assume "o_created_at row = time_stamp day 23 59 59"
  then show "\<not> in_window day row" by (rule window_edges)
next
  assume "orders_table s = []"
  then show "totalOrders (fetchStats clock s) = 0" by (simp add: fetchStats_def Let_def)
next
  assume "orders_table s = []"
  then show "pendingOrders (fetchStats clock s) = 0" by (simp add: fetchStats_def Let_def)
next
  assume "filter (in_window (iso_date clock)) (orders_table s) = []"
  then show "todayRevenue (fetchStats clock s) = Fin 0"
    by (simp add: fetchStats_revenue or_zero_def)
next
  assume rd: "reportData day s = Some rd"
  then show "rd_totalOrders rd = length (filter (in_window day) (orders_table s))"
    using reportData_aggregates by blast
  from rd show "rd_totalRevenue rd
             = or_zero (foldl js_add (Fin 0) (map o_total_amount (filter (in_window day) (orders_table s))))"
    using reportData_aggregates by blast
qed

lemma example_status:
  "o_status order1 = ''pending''" "o_status order2 = ''completed''" "o_status order3 = ''pending''"
  "o_status order4 = ''pending''" "o_status order5 = ''pending''"
  by (simp_all add: order1_def order2_def order3_def order4_def order5_def)

lemma example_amount:
  "o_total_amount order1 = Fin 10" "o_total_amount order2 = Fin 20" "o_total_amount order3 = Fin 5"
  "o_total_amount order4 = Fin 7" "o_total_amount order5 = Fin 3"
  by (simp_all add: order1_def order2_def order3_def order4_def order5_def)

lemma example_window:
  "in_window 20000 order1" "in_window 20000 order2" "in_window 20000 order3"
  "\<not> in_window 20000 order4" "\<not> in_window 20000 order5"
  by (simp_all add: in_window_def time_stamp_def example_created_at)

lemma clock0_date: "iso_date clock0 = 20000"
  by (simp add: iso_date_def clock0_def)

lemma store5_orders: "orders_table store5 = [order1, order2, order3, order4, order5]"
  by (simp add: store5_def)

lemma store5_window: "filter (in_window (iso_date clock0)) (orders_table store5) = [order1, order2, order3]"
  by (simp add: clock0_date store5_orders example_window)

lemma example_sum: "foldl js_add (Fin 0) [Fin 10, Fin 20, Fin 5] = Fin 35"
  by (simp add: js_add_Fin round_eval)

text \<open>
  C5 as stated fails: with one pending order, created the day before, no order matches the
  window of the day and yet both counts are 1.
\<close>

theorem counts_outside_window:
  "filter (in_window (iso_date clock0)) (orders_table (empty_store\<lparr>orders_table := [order5]\<rparr>)) = []
   \<and> totalOrders (fetchStats clock0 (empty_store\<lparr>orders_table := [order5]\<rparr>)) = 1
   \<and> pendingOrders (fetchStats clock0 (empty_store\<lparr>orders_table := [order5]\<rparr>)) = 1"
  by (simp add: fetchStats_def Let_def clock0_date example_window example_status)

text \<open>
  The scenario of the specification: orders of 10, 20 and 5 at 09:00, 14:00 and 23:59:30,
  with one more at 23:59:59 and one from the day before, which the revenue leaves out.
\<close>

lemma report_items_no_rows: "order_items_table s = [] \<Longrightarrow> report_items s order_id = Some []"
  by (simp add: report_items_def)

lemma reportData_no_rows:
  assumes "order_items_table s = []"
  shows "reportData day s \<noteq> None"
proof -
  have "None \<notin> set (map (\<lambda>row. report_items s (o_id row)) (filter (in_window day) (orders_table s)))"
    using assms by (simp add: report_items_no_rows image_iff)
  then show ?thesis
    unfolding reportData_def Let_def by (simp only: if_not_P) simp
qed

theorem fetchStats_aggregates_witness:
  "filter (in_window (iso_date clock0)) (orders_table store5) = [order1, order2, order3]
   \<and> totalOrders (fetchStats clock0 store5) = 5
   \<and> pendingOrders (fetchStats clock0 store5) = 4
   \<and> todayRevenue (fetchStats clock0 store5) = Fin 35
   \<and> o_created_at order3 = time_stamp 20000 23 59 30 \<and> in_window 20000 order3
   \<and> o_created_at order4 = time_stamp 20000 23 59 59 \<and> \<not> in_window 20000 order4
   \<and> orders_table empty_store = []
   \<and> totalOrders (fetchStats clock0 empty_store) = 0
   \<and> pendingOrders (fetchStats clock0 empty_store) = 0
   \<and> todayRevenue (fetchStats clock0 empty_store) = Fin 0
   \<and> (\<exists>rd. reportData 20000 store5 = Some rd \<and> rd_totalOrders rd = 3 \<and> rd_totalRevenue rd = Fin 35)"
proof -
  note th3 = fetchStats_aggregates [of clock0 store5 order3 20000]
  note th4 = fetchStats_aggregates [of clock0 store5 order4 20000]
  have t3: "o_created_at order3 = time_stamp 20000 23 59 30"
    by (simp add: order3_def)
  have t4: "o_created_at order4 = time_stamp 20000 23 59 59"
    by (simp add: order4_def)
  have w3: "in_window 20000 order3"
    using th3 [THEN conjunct2, THEN conjunct2, THEN conjunct2, THEN conjunct1] t3 by (rule mp)
  have w4: "\<not> in_window 20000 order4"
    using th4 [THEN conjunct2, THEN conjunct2, THEN conjunct2, THEN conjunct2, THEN conjunct1] t4 by (rule mp)
  have n: "totalOrders (fetchStats clock0 store5) = 5"
    by (simp add: th3 [THEN conjunct1] store5_orders)
  have p: "pendingOrders (fetchStats clock0 store5) = 4"
    by (simp add: th3 [THEN conjunct2, THEN conjunct1] store5_orders example_status)
  have r: "todayRevenue (fetchStats clock0 store5) = Fin 35"
  proof -
    have "todayRevenue (fetchStats clock0 store5) = or_zero (foldl js_add (Fin 0) [Fin 10, Fin 20, Fin 5])"
      by (simp only: fetchStats_revenue store5_window list.map example_amount)
    then show ?thesis
      by (simp only: example_sum) (simp add: or_zero_def)
  qed
  have e: "orders_table empty_store = []" "order_items_table store5 = []"
    by (simp_all add: empty_store_def store5_def)
  then have e': "filter (in_window (iso_date clock0)) (orders_table empty_store) = []"
    by simp
  note the = fetchStats_aggregates [of clock0 empty_store order3 20000]
  have z: "totalOrders (fetchStats clock0 empty_store) = 0 \<and> pendingOrders (fetchStats clock0 empty_store) = 0"
    using the [THEN conjunct2, THEN conjunct2, THEN conjunct2, THEN conjunct2, THEN conjunct2, THEN conjunct1]
      e(1) by (rule mp)
  have z': "todayRevenue (fetchStats clock0 empty_store) = Fin 0"
    using the [THEN conjunct2, THEN conjunct2, THEN conjunct2, THEN conjunct2, THEN conjunct2,
        THEN conjunct2, THEN conjunct1] e' by (rule mp)
  from reportData_no_rows [OF e(2)] obtain rd where rd: "reportData 20000 store5 = Some rd"
    by blast
  note thr = fetchStats_aggregates [of clock0 store5 order3 20000 rd]
  have agg: "rd_totalOrders rd = length (filter (in_window 20000) (orders_table store5))
         \<and> rd_totalRevenue rd
             = or_zero (foldl js_add (Fin 0) (map o_total_amount (filter (in_window 20000) (orders_table store5))))"
    using thr [THEN conjunct2, THEN conjunct2, THEN conjunct2, THEN conjunct2, THEN conjunct2,
        THEN conjunct2, THEN conjunct2] rd by (rule mp)
  have win: "filter (in_window 20000) (orders_table store5) = [order1, order2, order3]"
    using store5_window by (simp only: clock0_date)
  have "rd_totalOrders rd = 3"
    using agg by (simp only: win) simp
  moreover have "rd_totalRevenue rd = Fin 35"
  proof -
    from agg have "rd_totalRevenue rd = or_zero (foldl js_add (Fin 0) [Fin 10, Fin 20, Fin 5])"
      by (simp only: win list.map example_amount)
    then show ?thesis
      by (simp only: example_sum) (simp add: or_zero_def)
  qed
  ultimately have x: "\<exists>rd. reportData 20000 store5 = Some rd \<and> rd_totalOrders rd = 3
                       \<and> rd_totalRevenue rd = Fin 35"
    using rd by blast
  from store5_window n p r t3 w3 t4 w4 e(1) z z' x show ?thesis
    by (intro conjI) simp_all
qed

section \<open>Sales reports: properties\<close>

lemma generateSalesReport_rows:
  assumes "reportData (iso_date date) s = Some rd" and "\<not> upsert_error reply"
  shows "sales_reports_table (snd (generateSalesReport reply date s))
           = upsert \<lparr>sr_id = new_report_id reply, report_date = iso_date date,
                     total_orders = rd_totalOrders rd, total_revenue = rd_totalRevenue rd,
                     report_data = rd\<rparr> (sales_reports_table s)"
    and "orders_table (snd (generateSalesReport reply date s)) = orders_table s"
    and "order_items_table (snd (generateSalesReport reply date s)) = order_items_table s"
    and "products_table (snd (generateSalesReport reply date s)) = products_table s"
  using assms by (simp_all add: generateSalesReport_def Let_def)

lemma upsert_new:
  "sr_id row \<notin> sr_id ` set table \<Longrightarrow> upsert row table = table @ [row]"
  by (simp add: upsert_def)

lemma report_items_cong:
  "order_items_table s' = order_items_table s \<Longrightarrow> products_table s' = products_table s
   \<Longrightarrow> report_items s' order_id = report_items s order_id"
  by (simp add: report_items_def)

lemma reportData_cong:
  assumes "orders_table s' = orders_table s" and "order_items_table s' = order_items_table s"
    and "products_table s' = products_table s"
  shows "reportData day s' = reportData day s"
proof -
  have eq: "report_items s' = report_items s"
    using assms by (intro ext report_items_cong)
  show ?thesis
    by (simp only: reportData_def eq assms(1))
qed

text \<open>
  C9 does not hold of the program: generating the report of one date twice leaves two
  records for that date. The upserted object carries no \<^verbatim>\<open>id\<close>, the only column on which
  the table can detect a conflict, so the second call adds a row.
\<close>

theorem regenerated_report_second_row:
  "map (\<lambda>r. (sr_id r, report_date r))
     (sales_reports_table
        (snd (generateSalesReport report_reply2 clock0
               (snd (generateSalesReport report_reply1 clock0 store5)))))
     = [(''r1'', 20000), (''r2'', 20000)]"
proof -
  let ?s1 = "snd (generateSalesReport report_reply1 clock0 store5)"
  have empty: "order_items_table store5 = []" "sales_reports_table store5 = []"
    by (simp_all add: store5_def empty_store_def)
  from reportData_no_rows [OF empty(1)] obtain rd
    where rd: "reportData (iso_date clock0) store5 = Some rd"
    by blast
  have ok: "\<not> upsert_error report_reply1" "\<not> upsert_error report_reply2"
    and ids: "new_report_id report_reply1 = ''r1''" "new_report_id report_reply2 = ''r2''"
    by (simp_all add: report_reply1_def report_reply2_def)
  note first = generateSalesReport_rows [OF rd ok(1)]
  have "reportData (iso_date clock0) ?s1 = reportData (iso_date clock0) store5"
    using first(2-4) by (rule reportData_cong)
  with rd have rd1: "reportData (iso_date clock0) ?s1 = Some rd"
    by simp
  note second = generateSalesReport_rows [OF rd1 ok(2)]
  have t1: "sales_reports_table ?s1
          = [\<lparr>sr_id = ''r1'', report_date = iso_date clock0, total_orders = rd_totalOrders rd,
               total_revenue = rd_totalRevenue rd, report_data = rd\<rparr>]"
    by (simp add: first(1) empty(2) ids upsert_def)
  have "sales_reports_table (snd (generateSalesReport report_reply2 clock0 ?s1))
          = [\<lparr>sr_id = ''r1'', report_date = iso_date clock0, total_orders = rd_totalOrders rd,
               total_revenue = rd_totalRevenue rd, report_data = rd\<rparr>,
             \<lparr>sr_id = ''r2'', report_date = iso_date clock0, total_orders = rd_totalOrders rd,
               total_revenue = rd_totalRevenue rd, report_data = rd\<rparr>]"
    by (simp add: second(1) t1 ids upsert_def)
  then show ?thesis
    by (simp add: clock0_date)
qed

section \<open>The cart total: properties\<close>














end
